theory Spec2Isabelle
  imports Complex_Main "HOL-Library.Sublist"
begin

section \<open>Text and pattern matching\<close>

text \<open>
  The collector of \<^verbatim>\<open>power_monitor.py\<close> works on the text printed by three
  system utilities. Text is a \<^typ>\<open>string\<close>: a list of 8-bit characters, read as the
  code points below 256. On this range the character classes of Python's \<^verbatim>\<open>re\<close>
  module (for \<^verbatim>\<open>str\<close> patterns) are the following.
\<close>

definition is_space :: "char \<Rightarrow> bool" where
  \<comment> \<open>\<^verbatim>\<open>\s\<close>: tab to carriage return, the four separators, space, NEL and NBSP\<close>
  "is_space c = (let n = (of_char c :: nat) in
     (9 \<le> n \<and> n \<le> 13) \<or> (28 \<le> n \<and> n \<le> 32) \<or> n = 133 \<or> n = 160)"

definition is_digit :: "char \<Rightarrow> bool" where
  \<comment> \<open>\<^verbatim>\<open>\d\<close>\<close>
  "is_digit c = (let n = (of_char c :: nat) in 48 \<le> n \<and> n \<le> 57)"

definition is_word :: "char \<Rightarrow> bool" where
  \<comment> \<open>\<^verbatim>\<open>\w\<close>: alphanumeric characters and the underscore\<close>
  "is_word c = (let n = (of_char c :: nat) in
     (48 \<le> n \<and> n \<le> 57) \<or> (65 \<le> n \<and> n \<le> 90) \<or> n = 95 \<or> (97 \<le> n \<and> n \<le> 122) \<or>
     n = 170 \<or> n = 178 \<or> n = 179 \<or> n = 181 \<or> n = 185 \<or> n = 186 \<or>
     (188 \<le> n \<and> n \<le> 190) \<or> (192 \<le> n \<and> n \<le> 214) \<or> (216 \<le> n \<and> n \<le> 246) \<or>
     (248 \<le> n \<and> n \<le> 255))"

text \<open>
  \<^verbatim>\<open>pat in text\<close>: the substring test, by trying every position from the left.
\<close>

fun contains :: "string \<Rightarrow> string \<Rightarrow> bool" where
  "contains pat [] = (pat = [])"
| "contains pat (c # cs) = (prefix pat (c # cs) \<or> contains pat cs)"

text \<open>
  \<^verbatim>\<open>re.search\<close> tries the pattern at every position from the left, the end of the
  text included, and returns the first match. A pattern is given here by the function
  that matches it at the start of a text and returns its group 1.
\<close>

fun re_search :: "(string \<Rightarrow> string option) \<Rightarrow> string \<Rightarrow> string option" where
  "re_search m [] = m []"
| "re_search m (c # cs) = (case m (c # cs) of Some g \<Rightarrow> Some g | None \<Rightarrow> re_search m cs)"

definition lit :: "string \<Rightarrow> string \<Rightarrow> string option" where
  \<comment> \<open>a literal: the rest of the text after it\<close>
  "lit p s = (if prefix p s then Some (drop (length p) s) else None)"

definition opt_lit :: "string \<Rightarrow> string \<Rightarrow> string" where
  \<comment> \<open>an optional literal, taken when it is there\<close>
  "opt_lit p s = (if prefix p s then drop (length p) s else s)"

definition digits1 :: "string \<Rightarrow> string option" where
  \<comment> \<open>\<^verbatim>\<open>(\d+)\<close>: the longest run of digits, which must not be empty\<close>
  "digits1 s = (let ds = takeWhile is_digit s in if ds = [] then None else Some ds)"

definition kv_tail :: "(string \<Rightarrow> string option) \<Rightarrow> string \<Rightarrow> string option" where
  \<comment> \<open>\<^verbatim>\<open>\s*=\s*\<close> and then the group\<close>
  "kv_tail grp s =
     (case dropWhile is_space s of
        c # r \<Rightarrow> if c = CHR ''='' then grp (dropWhile is_space r) else None
      | [] \<Rightarrow> None)"

definition match_uint :: "string \<Rightarrow> string \<Rightarrow> string option" where
  \<comment> \<open>\<^verbatim>\<open>"Key"\s*=\s*(\d+)\<close>, the key given with its quotes\<close>
  "match_uint key s = (case lit key s of None \<Rightarrow> None | Some r \<Rightarrow> kv_tail digits1 r)"

definition sdigits1 :: "string \<Rightarrow> string option" where
  \<comment> \<open>\<^verbatim>\<open>(-?\d+)\<close>\<close>
  "sdigits1 s =
     (case s of
        c # r \<Rightarrow> if c = CHR ''-''
                 then (case digits1 r of None \<Rightarrow> None | Some ds \<Rightarrow> Some (c # ds))
                 else digits1 s
      | [] \<Rightarrow> None)"

definition match_sint :: "string \<Rightarrow> string \<Rightarrow> string option" where
  \<comment> \<open>\<^verbatim>\<open>"Key"\s*=\s*(-?\d+)\<close>\<close>
  "match_sint key s = (case lit key s of None \<Rightarrow> None | Some r \<Rightarrow> kv_tail sdigits1 r)"


text \<open>
  The adapter group \<^verbatim>\<open>"(?:AppleRaw)?AdapterDetails"\s*=\s*\{([^}]+)\}\<close>: the
  characters up to the first closing brace, at least one, and the brace must be there.
\<close>

definition braces1 :: "string \<Rightarrow> string option" where
  "braces1 s =
     (case s of
        c # r \<Rightarrow>
          if c = CHR ''{''
          then (let body = takeWhile (\<lambda>x. x \<noteq> CHR ''}'') r
                in if body = [] \<or> length body = length r then None else Some body)
          else None
      | [] \<Rightarrow> None)"

definition match_adapter_details :: "string \<Rightarrow> string option" where
  "match_adapter_details s =
     (case lit ''\"'' s of
        None \<Rightarrow> None
      | Some r \<Rightarrow>
          (case lit ''AdapterDetails\"'' (opt_lit ''AppleRaw'' r) of
             None \<Rightarrow> None
           | Some r' \<Rightarrow> kv_tail braces1 r'))"

definition match_sub :: "string \<Rightarrow> string \<Rightarrow> string option" where
  \<comment> \<open>\<^verbatim>\<open>[ ,]\"?Name\"?[:=](\d+)\<close>, for a sub-field of the adapter group\<close>
  "match_sub name s =
     (case s of
        c # r \<Rightarrow>
          if c = CHR '' '' \<or> c = CHR '',''
          then (case lit name (opt_lit ''\"'' r) of
                  None \<Rightarrow> None
                | Some r' \<Rightarrow>
                    (case opt_lit ''\"'' r' of
                       d # r'' \<Rightarrow> if d = CHR '':'' \<or> d = CHR ''='' then digits1 r'' else None
                     | [] \<Rightarrow> None))
          else None
      | [] \<Rightarrow> None)"

definition match_condition :: "string \<Rightarrow> string option" where
  \<comment> \<open>\<^verbatim>\<open>Condition:\s*(\w+)\<close>\<close>
  "match_condition s =
     (case lit ''Condition:'' s of
        None \<Rightarrow> None
      | Some r \<Rightarrow> (let w = takeWhile is_word (dropWhile is_space r)
                   in if w = [] then None else Some w))"

definition match_lowpowermode :: "string \<Rightarrow> string option" where
  \<comment> \<open>\<^verbatim>\<open>lowpowermode\s+(\d)\<close>\<close>
  "match_lowpowermode s =
     (case lit ''lowpowermode'' s of
        None \<Rightarrow> None
      | Some r \<Rightarrow>
          if takeWhile is_space r = [] then None
          else (case dropWhile is_space r of
                  d # _ \<Rightarrow> if is_digit d then Some [d] else None
                | [] \<Rightarrow> None))"

section \<open>Python values\<close>

datatype py_exception = ValueError | OverflowError | ZeroDivisionError
  | TimeoutExpired | OSError | UnicodeDecodeError

text \<open>
  \<^verbatim>\<open>int(group)\<close> on a group of \<^verbatim>\<open>-?\d+\<close>: the decimal value. A string with more
  than 4300 digits raises \<^verbatim>\<open>ValueError\<close> (the interpreter's default limit on the
  conversion), and so does a string that is no decimal literal; the groups above are
  always literals.
\<close>

definition digit_val :: "char \<Rightarrow> int" where
  "digit_val c = int (of_char c) - 48"

definition dec_value :: "string \<Rightarrow> int" where
  "dec_value ds = foldl (\<lambda>a c. 10 * a + digit_val c) 0 ds"

definition int_max_str_digits :: nat where
  "int_max_str_digits = 4300"

definition py_int :: "string \<Rightarrow> py_exception + int" where
  "py_int g =
     (let neg = (g \<noteq> [] \<and> hd g = CHR ''-'');
          ds = (if neg then tl g else g)
      in if ds = [] \<or> \<not> list_all is_digit ds \<or> length ds > int_max_str_digits
         then Inl ValueError
         else Inr (if neg then - dec_value ds else dec_value ds))"

text \<open>\<^verbatim>\<open>str(n)\<close>, as an f-string renders an integer.\<close>

definition digit_char :: "nat \<Rightarrow> char" where
  "digit_char d = ''0123456789'' ! d"

fun str_nat :: "nat \<Rightarrow> string" where
  "str_nat n = (if n < 10 then [digit_char n] else str_nat (n div 10) @ [digit_char (n mod 10)])"

declare str_nat.simps [simp del]

definition py_str :: "int \<Rightarrow> string" where
  "py_str i = (if i < 0 then CHR ''-'' # str_nat (nat (- i)) else str_nat (nat i))"


subsection \<open>Floats\<close>

text \<open>
  A Python \<^verbatim>\<open>float\<close> is an IEEE 754 binary64 value: a rational number with a 53-bit
  significand, an infinity or a NaN (the sign of zero is not kept). Every operation
  computes exactly and rounds to the nearest such value, ties to the even significand;
  a result of magnitude \<open>2 ^ 1024\<close> or more after rounding is an overflow.
\<close>

datatype pyfloat = Fin real | PInf | NInf | NaN

definition pow2 :: "int \<Rightarrow> real" where
  "pow2 e = (if 0 \<le> e then 2 ^ nat e else 1 / 2 ^ nat (- e))"

function bit_length :: "int \<Rightarrow> int" where
  "bit_length n = (if n \<le> 0 then 0 else 1 + bit_length (n div 2))"
  by pat_completeness auto
termination
  by (relation "measure nat") auto

declare bit_length.simps [simp del]

definition ilog2 :: "real \<Rightarrow> int" where
  \<comment> \<open>\<open>\<lfloor>log\<^sub>2 q\<rfloor>\<close> for a positive \<open>q\<close>\<close>
  "ilog2 q = (if 1 \<le> q then bit_length \<lfloor>q\<rfloor> - 1 else - bit_length (\<lceil>1 / q\<rceil> - 1))"

definition round_half_even :: "real \<Rightarrow> int" where
  "round_half_even q =
     (let f = \<lfloor>q\<rfloor>; d = q - of_int f
      in if d < 1 / 2 then f else if 1 / 2 < d then f + 1 else if even f then f else f + 1)"

definition fl :: "real \<Rightarrow> pyfloat" where
  "fl q =
     (if q = 0 then Fin 0
      else let e = max (ilog2 \<bar>q\<bar> - 52) (- 1074);
               r = of_int (round_half_even (\<bar>q\<bar> / pow2 e)) * pow2 e
           in if pow2 1024 \<le> r then (if 0 < q then PInf else NInf)
              else Fin (if 0 < q then r else - r))"

definition float_neg :: "pyfloat \<Rightarrow> pyfloat" where
  "float_neg x = (case x of Fin a \<Rightarrow> Fin (- a) | PInf \<Rightarrow> NInf | NInf \<Rightarrow> PInf | NaN \<Rightarrow> NaN)"

definition float_add :: "pyfloat \<Rightarrow> pyfloat \<Rightarrow> pyfloat" where
  "float_add x y =
     (case (x, y) of
        (Fin a, Fin b) \<Rightarrow> fl (a + b)
      | (NaN, _) \<Rightarrow> NaN
      | (_, NaN) \<Rightarrow> NaN
      | (PInf, NInf) \<Rightarrow> NaN
      | (NInf, PInf) \<Rightarrow> NaN
      | (PInf, _) \<Rightarrow> PInf
      | (NInf, _) \<Rightarrow> NInf
      | (_, PInf) \<Rightarrow> PInf
      | (_, NInf) \<Rightarrow> NInf)"

definition float_sub :: "pyfloat \<Rightarrow> pyfloat \<Rightarrow> pyfloat" where
  "float_sub x y = float_add x (float_neg y)"

definition float_sgn :: "pyfloat \<Rightarrow> int" where
  \<comment> \<open>of a value that is not NaN\<close>
  "float_sgn x =
     (case x of
        Fin a \<Rightarrow> (if 0 < a then 1 else if a < 0 then - 1 else 0)
      | PInf \<Rightarrow> 1
      | NInf \<Rightarrow> - 1
      | NaN \<Rightarrow> 0)"

definition float_mul :: "pyfloat \<Rightarrow> pyfloat \<Rightarrow> pyfloat" where
  "float_mul x y =
     (case (x, y) of
        (Fin a, Fin b) \<Rightarrow> fl (a * b)
      | (NaN, _) \<Rightarrow> NaN
      | (_, NaN) \<Rightarrow> NaN
      | _ \<Rightarrow> (let g = float_sgn x * float_sgn y
              in if g = 0 then NaN else if 0 < g then PInf else NInf))"

definition float_truediv :: "pyfloat \<Rightarrow> pyfloat \<Rightarrow> py_exception + pyfloat" where
  \<comment> \<open>\<^verbatim>\<open>x / y\<close> on floats: a zero divisor raises\<close>
  "float_truediv x y =
     (case (x, y) of
        (_, Fin b) \<Rightarrow>
          if b = 0 then Inl ZeroDivisionError
          else (case x of
                  Fin a \<Rightarrow> Inr (fl (a / b))
                | NaN \<Rightarrow> Inr NaN
                | _ \<Rightarrow> Inr (if 0 < float_sgn x * float_sgn y then PInf else NInf))
      | (NaN, _) \<Rightarrow> Inr NaN
      | (_, NaN) \<Rightarrow> Inr NaN
      | (Fin a, _) \<Rightarrow> Inr (Fin 0)
      | _ \<Rightarrow> Inr NaN)"

definition float_gt :: "pyfloat \<Rightarrow> pyfloat \<Rightarrow> bool" where
  \<comment> \<open>\<^verbatim>\<open>x > y\<close>: false when either side is NaN\<close>
  "float_gt x y =
     (case (x, y) of
        (Fin a, Fin b) \<Rightarrow> b < a
      | (NaN, _) \<Rightarrow> False
      | (_, NaN) \<Rightarrow> False
      | (PInf, PInf) \<Rightarrow> False
      | (PInf, _) \<Rightarrow> True
      | (_, NInf) \<Rightarrow> x \<noteq> NInf
      | _ \<Rightarrow> False)"

definition float_of_int :: "int \<Rightarrow> py_exception + pyfloat" where
  \<comment> \<open>the conversion of an \<^verbatim>\<open>int\<close> operand: \<^verbatim>\<open>OverflowError\<close> when it is too large\<close>
  "float_of_int i = (case fl (of_int i) of Fin a \<Rightarrow> Inr (Fin a) | _ \<Rightarrow> Inl OverflowError)"

definition int_truediv :: "int \<Rightarrow> int \<Rightarrow> py_exception + pyfloat" where
  \<comment> \<open>\<^verbatim>\<open>a / b\<close> on integers: the correctly rounded quotient\<close>
  "int_truediv a b =
     (if b = 0 then Inl ZeroDivisionError
      else (case fl (of_int a / of_int b) of Fin q \<Rightarrow> Inr (Fin q) | _ \<Rightarrow> Inl OverflowError))"

definition float_round :: "pyfloat \<Rightarrow> nat \<Rightarrow> py_exception + pyfloat" where
  \<comment> \<open>\<^verbatim>\<open>round(x, n)\<close> for \<open>n \<ge> 0\<close>: the decimal with \<open>n\<close> places nearest to \<open>x\<close>
      (ties to even), converted back; infinities and NaN are returned as they are\<close>
  "float_round x n =
     (case x of
        Fin a \<Rightarrow>
          (case fl (of_int (round_half_even (a * 10 ^ n)) / 10 ^ n) of
             Fin r \<Rightarrow> Inr (Fin r)
           | _ \<Rightarrow> Inl OverflowError)
      | _ \<Rightarrow> Inr x)"


subsection \<open>Numbers\<close>

text \<open>
  A field of the snapshot that starts as the integer \<^verbatim>\<open>0\<close> and is later assigned a
  float holds either kind of number; arithmetic on mixed operands converts the integer.
\<close>

datatype pynum = PInt int | PFloat pyfloat

definition bind_exc :: "py_exception + 'a \<Rightarrow> ('a \<Rightarrow> py_exception + 'b) \<Rightarrow> py_exception + 'b" where
  "bind_exc r f = (case r of Inl e \<Rightarrow> Inl e | Inr v \<Rightarrow> f v)"

definition num_mul :: "pynum \<Rightarrow> pynum \<Rightarrow> py_exception + pynum" where
  "num_mul x y =
     (case (x, y) of
        (PInt a, PInt b) \<Rightarrow> Inr (PInt (a * b))
      | (PInt a, PFloat v) \<Rightarrow> bind_exc (float_of_int a) (\<lambda>u. Inr (PFloat (float_mul u v)))
      | (PFloat u, PInt b) \<Rightarrow> bind_exc (float_of_int b) (\<lambda>v. Inr (PFloat (float_mul u v)))
      | (PFloat u, PFloat v) \<Rightarrow> Inr (PFloat (float_mul u v)))"

definition num_truediv :: "pynum \<Rightarrow> pynum \<Rightarrow> py_exception + pynum" where
  "num_truediv x y =
     (case (x, y) of
        (PInt a, PInt b) \<Rightarrow> bind_exc (int_truediv a b) (\<lambda>q. Inr (PFloat q))
      | (PInt a, PFloat v) \<Rightarrow>
          bind_exc (float_of_int a) (\<lambda>u. bind_exc (float_truediv u v) (\<lambda>q. Inr (PFloat q)))
      | (PFloat u, PInt b) \<Rightarrow>
          bind_exc (float_of_int b) (\<lambda>v. bind_exc (float_truediv u v) (\<lambda>q. Inr (PFloat q)))
      | (PFloat u, PFloat v) \<Rightarrow> bind_exc (float_truediv u v) (\<lambda>q. Inr (PFloat q)))"

definition num_sub :: "pynum \<Rightarrow> pynum \<Rightarrow> py_exception + pynum" where
  "num_sub x y =
     (case (x, y) of
        (PInt a, PInt b) \<Rightarrow> Inr (PInt (a - b))
      | (PInt a, PFloat v) \<Rightarrow> bind_exc (float_of_int a) (\<lambda>u. Inr (PFloat (float_sub u v)))
      | (PFloat u, PInt b) \<Rightarrow> bind_exc (float_of_int b) (\<lambda>v. Inr (PFloat (float_sub u v)))
      | (PFloat u, PFloat v) \<Rightarrow> Inr (PFloat (float_sub u v)))"

definition py_round :: "pynum \<Rightarrow> nat \<Rightarrow> py_exception + pynum" where
  \<comment> \<open>\<^verbatim>\<open>round(x, n)\<close> with \<open>n \<ge> 0\<close>: an integer is returned as it is\<close>
  "py_round x n =
     (case x of
        PInt a \<Rightarrow> Inr (PInt a)
      | PFloat u \<Rightarrow> bind_exc (float_round u n) (\<lambda>r. Inr (PFloat r)))"

section \<open>The snapshot\<close>

text \<open>\<^verbatim>\<open>collections.deque(maxlen=n)\<close>: appending to a full deque drops the oldest item.\<close>

datatype 'a deque = Deque (maxlen: nat) (items: "'a list")

definition deque_append :: "'a deque \<Rightarrow> 'a \<Rightarrow> 'a deque" where
  "deque_append d x =
     (let ys = items d @ [x]
      in Deque (maxlen d) (if maxlen d < length ys then tl ys else ys))"

text \<open>Class \<^verbatim>\<open>PowerData\<close>.\<close>

record PowerData =
  power_source :: string
  battery_percent :: int
  charging_status :: string
  time_remaining :: string
  cycle_count :: int
  condition :: string
  max_capacity_percent :: pynum
  charger_wattage :: int
  charger_connected :: bool
  fully_charged :: bool
  low_power_mode :: bool
  temperature :: pynum
  voltage :: pynum
  amperage :: int
  power_watts :: pynum
  adapter_voltage :: pynum
  adapter_current :: int
  adapter_watts :: int
  serial :: string
  design_capacity :: int
  current_capacity :: int
  mode :: string
  poll_interval :: pyfloat
  power_history :: "pynum deque"
  temp_history :: "pynum deque"
  last_update_time :: pynum
  poll_latency :: pynum

definition PowerData_init :: PowerData where
  \<comment> \<open>\<^verbatim>\<open>PowerData.__init__\<close>\<close>
  "PowerData_init = \<lparr>
     power_source = ''Unknown'',
     battery_percent = 0,
     charging_status = ''Unknown'',
     time_remaining = ''Unknown'',
     cycle_count = 0,
     condition = ''Checking...'',
     max_capacity_percent = PInt 100,
     charger_wattage = 0,
     charger_connected = False,
     fully_charged = False,
     low_power_mode = False,
     temperature = PInt 0,
     voltage = PInt 0,
     amperage = 0,
     power_watts = PInt 0,
     adapter_voltage = PInt 0,
     adapter_current = 0,
     adapter_watts = 0,
     serial = ''Unknown'',
     design_capacity = 0,
     current_capacity = 0,
     mode = ''BALANCED'',
     poll_interval = Fin 2,
     power_history = Deque 100 [],
     temp_history = Deque 100 [],
     last_update_time = PInt 0,
     poll_latency = PInt 0 \<rparr>"


section \<open>The collector\<close>

subsection \<open>The telemetry source adapter\<close>

text \<open>
  \<^verbatim>\<open>subprocess.run(cmd_args, capture_output=True, text=True, timeout=5, shell=False)\<close>
  is an effect of the environment: the process completes with an exit code and its
  captured output, or the call raises (the timeout expired, the process could not be
  spawned, the output could not be decoded). No \<^verbatim>\<open>check=True\<close> is passed, so an
  exit code is never turned into an exception.
\<close>

datatype proc_result = Completed (returncode: int) (stdout: string) | Failed py_exception

definition subprocess_run :: "proc_result \<Rightarrow> py_exception + proc_result" where
  "subprocess_run r = (case r of Completed rc out \<Rightarrow> Inr (Completed rc out) | Failed e \<Rightarrow> Inl e)"

definition run_command :: "proc_result \<Rightarrow> py_exception + string" where
  \<comment> \<open>\<^verbatim>\<open>try: ... return result.stdout\<close>, \<^verbatim>\<open>except Exception: return ""\<close>\<close>
  "run_command r = (case subprocess_run r of Inr result \<Rightarrow> Inr (stdout result) | Inl e \<Rightarrow> Inr [])"

subsection \<open>Parsing under the lock\<close>

text \<open>
  The statements of \<^verbatim>\<open>DataCollector.run\<close> mutate the snapshot one after the other.
  An exception raised in the middle leaves the fields assigned so far and ends the
  thread, so the outcome of a statement keeps the snapshot in both cases.
\<close>

datatype outcome = Done PowerData | Raised py_exception PowerData

definition state_of :: "outcome \<Rightarrow> PowerData" where
  "state_of r = (case r of Done s \<Rightarrow> s | Raised e s \<Rightarrow> s)"

definition and_then :: "outcome \<Rightarrow> (PowerData \<Rightarrow> outcome) \<Rightarrow> outcome" where
  "and_then r f = (case r of Done s \<Rightarrow> f s | Raised e s \<Rightarrow> Raised e s)"

definition assign :: "PowerData \<Rightarrow> py_exception + 'a \<Rightarrow> ('a \<Rightarrow> PowerData) \<Rightarrow> outcome" where
  \<comment> \<open>an assignment whose right-hand side may raise\<close>
  "assign s rhs upd = (case rhs of Inl e \<Rightarrow> Raised e s | Inr v \<Rightarrow> Done (upd v))"

definition ext_conn :: "string \<Rightarrow> bool" where
  "ext_conn txt = (contains ''\"ExternalConnected\" = Yes'' txt \<or>
                   contains ''\"AppleRawExternalConnected\" = Yes'' txt)"

definition parse_source :: "string \<Rightarrow> PowerData \<Rightarrow> outcome" where
  "parse_source txt s =
     Done (s\<lparr>power_source := (if ext_conn txt then ''AC Power'' else ''Battery''),
             charger_connected := ext_conn txt\<rparr>)"

definition parse_percent :: "string \<Rightarrow> PowerData \<Rightarrow> outcome" where
  "parse_percent txt s =
     (case (re_search (match_uint ''\"CurrentCapacity\"'') txt,
            re_search (match_uint ''\"MaxCapacity\"'') txt) of
        (Some cur_cap, Some max_cap) \<Rightarrow>
          assign s (py_int cur_cap) (\<lambda>v. s\<lparr>battery_percent := v\<rparr>)
      | _ \<Rightarrow> Done s)"

definition parse_status :: "string \<Rightarrow> PowerData \<Rightarrow> outcome" where
  "parse_status txt s =
     (let is_charging = contains ''\"IsCharging\" = Yes'' txt;
          fully_charged = contains ''\"FullyCharged\" = Yes'' txt
      in Done (s\<lparr>charging_status :=
                 (if fully_charged then ''Fully Charged''
                  else if is_charging then ''Charging''
                  else if \<not> ext_conn txt then ''Discharging'' else ''Connected'')\<rparr>))"

definition format_time :: "int \<Rightarrow> string" where
  "format_time mins =
     (if mins = 65535 then ''Calculating...''
      else py_str (mins div 60) @ ''h '' @ py_str (mins mod 60) @ ''m'')"

definition parse_time :: "string \<Rightarrow> PowerData \<Rightarrow> outcome" where
  "parse_time txt s =
     (case re_search (match_uint ''\"TimeRemaining\"'') txt of
        Some g \<Rightarrow> assign s (py_int g) (\<lambda>mins. s\<lparr>time_remaining := format_time mins\<rparr>)
      | None \<Rightarrow> Done s)"

definition celsius :: "int \<Rightarrow> py_exception + pynum" where
  \<comment> \<open>\<^verbatim>\<open>round((raw / 10) - 273.15, 1)\<close>\<close>
  "celsius raw =
     bind_exc (num_truediv (PInt raw) (PInt 10)) (\<lambda>q.
     bind_exc (num_sub q (PFloat (fl (27315 / 100)))) (\<lambda>d. py_round d 1))"

definition parse_temperature :: "string \<Rightarrow> PowerData \<Rightarrow> outcome" where
  "parse_temperature txt s =
     (case re_search (match_uint ''\"Temperature\"'') txt of
        Some g \<Rightarrow> assign s (bind_exc (py_int g) celsius) (\<lambda>t. s\<lparr>temperature := t\<rparr>)
      | None \<Rightarrow> Done s)"

definition parse_voltage :: "string \<Rightarrow> PowerData \<Rightarrow> outcome" where
  "parse_voltage txt s =
     (case re_search (match_uint ''\"Voltage\"'') txt of
        Some g \<Rightarrow>
          assign s (bind_exc (py_int g) (\<lambda>v. num_truediv (PInt v) (PInt 1000)))
            (\<lambda>v. s\<lparr>voltage := v\<rparr>)
      | None \<Rightarrow> Done s)"

definition signed_amperage :: "int \<Rightarrow> int" where
  \<comment> \<open>\<^verbatim>\<open>if amp > 2**63: amp -= 2**64\<close>\<close>
  "signed_amperage amp = (if amp > 2 ^ 63 then amp - 2 ^ 64 else amp)"

definition search_amperage :: "string \<Rightarrow> string option" where
  "search_amperage txt =
     (case re_search (match_sint ''\"InstantAmperage\"'') txt of
        Some g \<Rightarrow> Some g
      | None \<Rightarrow> re_search (match_sint ''\"Amperage\"'') txt)"

definition parse_amperage :: "string \<Rightarrow> PowerData \<Rightarrow> outcome" where
  "parse_amperage txt s =
     (case search_amperage txt of
        Some g \<Rightarrow> assign s (py_int g) (\<lambda>amp. s\<lparr>amperage := signed_amperage amp\<rparr>)
      | None \<Rightarrow> Done s)"

definition power_formula :: "pynum \<Rightarrow> int \<Rightarrow> py_exception + pynum" where
  \<comment> \<open>\<^verbatim>\<open>round(voltage * abs(amperage) / 1000, 2)\<close>\<close>
  "power_formula v a =
     bind_exc (num_mul v (PInt \<bar>a\<bar>)) (\<lambda>p.
     bind_exc (num_truediv p (PInt 1000)) (\<lambda>q. py_round q 2))"

definition update_power :: "PowerData \<Rightarrow> outcome" where
  "update_power s =
     assign s (power_formula (voltage s) (amperage s))
       (\<lambda>w. s\<lparr>power_watts := w, power_history := deque_append (power_history s) w\<rparr>)"

definition parse_cycle_count :: "string \<Rightarrow> PowerData \<Rightarrow> outcome" where
  "parse_cycle_count txt s =
     (case re_search (match_uint ''\"CycleCount\"'') txt of
        Some g \<Rightarrow> assign s (py_int g) (\<lambda>v. s\<lparr>cycle_count := v\<rparr>)
      | None \<Rightarrow> Done s)"

definition parse_design_capacity :: "string \<Rightarrow> PowerData \<Rightarrow> outcome" where
  "parse_design_capacity txt s =
     (case re_search (match_uint ''\"DesignCapacity\"'') txt of
        Some g \<Rightarrow> assign s (py_int g) (\<lambda>v. s\<lparr>design_capacity := v\<rparr>)
      | None \<Rightarrow> Done s)"

definition health_percent :: "int \<Rightarrow> int \<Rightarrow> py_exception + pynum" where
  \<comment> \<open>\<^verbatim>\<open>round((current_capacity / design_capacity) * 100, 1)\<close>\<close>
  "health_percent cur design =
     bind_exc (num_truediv (PInt cur) (PInt design)) (\<lambda>q.
     bind_exc (num_mul q (PInt 100)) (\<lambda>p. py_round p 1))"

definition parse_raw_max_capacity :: "string \<Rightarrow> PowerData \<Rightarrow> outcome" where
  "parse_raw_max_capacity txt s =
     (case re_search (match_uint ''\"AppleRawMaxCapacity\"'') txt of
        Some g \<Rightarrow>
          and_then (assign s (py_int g) (\<lambda>v. s\<lparr>current_capacity := v\<rparr>)) (\<lambda>s1.
            if design_capacity s1 > 0
            then assign s1 (health_percent (current_capacity s1) (design_capacity s1))
                   (\<lambda>p. s1\<lparr>max_capacity_percent := p\<rparr>)
            else Done s1)
      | None \<Rightarrow> Done s)"

definition parse_adapter_voltage :: "string \<Rightarrow> PowerData \<Rightarrow> outcome" where
  "parse_adapter_voltage ad_str s =
     (case re_search (match_sub ''AdapterVoltage'') ('' '' @ ad_str) of
        Some g \<Rightarrow>
          assign s (bind_exc (py_int g) (\<lambda>v. num_truediv (PInt v) (PInt 1000)))
            (\<lambda>v. s\<lparr>adapter_voltage := v\<rparr>)
      | None \<Rightarrow> Done s)"

definition parse_adapter_current :: "string \<Rightarrow> PowerData \<Rightarrow> outcome" where
  "parse_adapter_current ad_str s =
     (case re_search (match_sub ''Current'') ('' '' @ ad_str) of
        Some g \<Rightarrow> assign s (py_int g) (\<lambda>v. s\<lparr>adapter_current := v\<rparr>)
      | None \<Rightarrow> Done s)"

definition parse_adapter_watts :: "string \<Rightarrow> PowerData \<Rightarrow> outcome" where
  "parse_adapter_watts ad_str s =
     (case re_search (match_sub ''Watts'') ('' '' @ ad_str) of
        Some g \<Rightarrow> assign s (py_int g) (\<lambda>v. s\<lparr>charger_wattage := v\<rparr>)
      | None \<Rightarrow> Done s)"

definition parse_adapter :: "string \<Rightarrow> PowerData \<Rightarrow> outcome" where
  "parse_adapter txt s =
     (case re_search match_adapter_details txt of
        Some ad_str \<Rightarrow>
          and_then (and_then (parse_adapter_voltage ad_str s) (parse_adapter_current ad_str))
            (parse_adapter_watts ad_str)
      | None \<Rightarrow> Done s)"

definition latency_ms :: "pyfloat \<Rightarrow> pyfloat \<Rightarrow> py_exception + pynum" where
  \<comment> \<open>\<^verbatim>\<open>round((time.time() - start_time) * 1000, 0)\<close>\<close>
  "latency_ms now start_time =
     bind_exc (num_sub (PFloat now) (PFloat start_time)) (\<lambda>d.
     bind_exc (num_mul d (PInt 1000)) (\<lambda>m. py_round m 0))"

definition update_latency :: "pyfloat \<Rightarrow> pyfloat \<Rightarrow> PowerData \<Rightarrow> outcome" where
  "update_latency start_time now s =
     assign s (latency_ms now start_time) (\<lambda>l. s\<lparr>poll_latency := l\<rparr>)"

text \<open>
  The first \<^verbatim>\<open>with self.lock:\<close> block of \<^verbatim>\<open>run\<close>, on the text of the registry
  query, with the clock read at the start of the cycle and at the end of the block.
\<close>

definition update_primary :: "string \<Rightarrow> pyfloat \<Rightarrow> pyfloat \<Rightarrow> PowerData \<Rightarrow> outcome" where
  "update_primary ioreg_out start_time now s =
     and_then (and_then (and_then (and_then (and_then (and_then (and_then (and_then
     (and_then (and_then (and_then (and_then
       (parse_source ioreg_out s)
       (parse_percent ioreg_out))
       (parse_status ioreg_out))
       (parse_time ioreg_out))
       (parse_temperature ioreg_out))
       (parse_voltage ioreg_out))
       (parse_amperage ioreg_out))
       update_power)
       (parse_cycle_count ioreg_out))
       (parse_design_capacity ioreg_out))
       (parse_raw_max_capacity ioreg_out))
       (parse_adapter ioreg_out))
       (update_latency start_time now)"


subsection \<open>The slow check and the loop\<close>

definition slow_check :: "string \<Rightarrow> string \<Rightarrow> PowerData \<Rightarrow> PowerData" where
  \<comment> \<open>the second \<^verbatim>\<open>with self.lock:\<close> block, on the texts of the profiler and of pmset\<close>
  "slow_check prof_out lpm_out s =
     (let s1 = (case re_search match_condition prof_out of
                  Some g \<Rightarrow> s\<lparr>condition := g\<rparr>
                | None \<Rightarrow> s)
      in s1\<lparr>low_power_mode :=
              (case re_search match_lowpowermode lpm_out of
                 Some g \<Rightarrow> g = ''1''
               | None \<Rightarrow> False)\<rparr>)"

definition num_gt :: "pynum \<Rightarrow> pynum \<Rightarrow> bool" where
  \<comment> \<open>\<^verbatim>\<open>x > y\<close>: an integer and a float are compared by their exact values\<close>
  "num_gt x y =
     (case (x, y) of
        (PInt a, PInt b) \<Rightarrow> b < a
      | (PInt a, PFloat v) \<Rightarrow> float_gt (Fin (of_int a)) v
      | (PFloat u, PInt b) \<Rightarrow> float_gt u (Fin (of_int b))
      | (PFloat u, PFloat v) \<Rightarrow> float_gt u v)"

text \<open>
  What one pass of the loop reads from outside: the clock at its four calls of
  \<^verbatim>\<open>time.time()\<close> and the results of the three commands. (The two commands of the
  slow check run only when it is due.)
\<close>

record cycle_env =
  clock_start :: pyfloat
  ioreg :: proc_result
  clock_parsed :: pyfloat
  clock_check :: pyfloat
  system_profiler :: proc_result
  pmset :: proc_result
  clock_slow :: pyfloat

record collector =
  data :: PowerData
  last_slow_check :: pynum

definition collector_init :: "PowerData \<Rightarrow> collector" where
  \<comment> \<open>\<^verbatim>\<open>DataCollector.__init__\<close>\<close>
  "collector_init d = \<lparr> data = d, last_slow_check = PInt 0 \<rparr>"

datatype thread_state = Alive collector | Died py_exception collector

definition run_cycle :: "cycle_env \<Rightarrow> collector \<Rightarrow> thread_state" where
  \<comment> \<open>the body of \<^verbatim>\<open>while self.running:\<close>\<close>
  "run_cycle env c =
     (case run_command (ioreg env) of
        Inl e \<Rightarrow> Died e c
      | Inr ioreg_out \<Rightarrow>
          (case update_primary ioreg_out (clock_start env) (clock_parsed env) (data c) of
             Raised e s \<Rightarrow> Died e (c\<lparr>data := s\<rparr>)
           | Done s \<Rightarrow>
               (case num_sub (PFloat (clock_check env)) (last_slow_check c) of
                  Inl e \<Rightarrow> Died e (c\<lparr>data := s\<rparr>)
                | Inr elapsed \<Rightarrow>
                    if num_gt elapsed (PInt 30)
                    then (case run_command (system_profiler env) of
                            Inl e \<Rightarrow> Died e (c\<lparr>data := s\<rparr>)
                          | Inr prof_out \<Rightarrow>
                              (case run_command (pmset env) of
                                 Inl e \<Rightarrow> Died e (c\<lparr>data := s\<rparr>)
                               | Inr lpm_out \<Rightarrow>
                                   Alive \<lparr> data = slow_check prof_out lpm_out s,
                                           last_slow_check = PFloat (clock_slow env) \<rparr>))
                    else Alive (c\<lparr>data := s\<rparr>))))"

text \<open>
  The loop, along a finite run of passes. Each pass comes with the value of
  \<^verbatim>\<open>self.running\<close> that the loop test reads (the renderer clears the flag on quit).
\<close>

fun run :: "(bool \<times> cycle_env) list \<Rightarrow> collector \<Rightarrow> thread_state" where
  "run [] c = Alive c"
| "run ((running, env) # rest) c =
     (if running
      then (case run_cycle env c of Alive c' \<Rightarrow> run rest c' | Died e c' \<Rightarrow> Died e c')
      else Alive c)"

section \<open>Which fields a pass can assign\<close>

datatype field =
    F_power_source
  | F_battery_percent
  | F_charging_status
  | F_time_remaining
  | F_cycle_count
  | F_condition
  | F_max_capacity_percent
  | F_charger_wattage
  | F_charger_connected
  | F_fully_charged
  | F_low_power_mode
  | F_temperature
  | F_voltage
  | F_amperage
  | F_power_watts
  | F_adapter_voltage
  | F_adapter_current
  | F_adapter_watts
  | F_serial
  | F_design_capacity
  | F_current_capacity
  | F_mode
  | F_poll_interval
  | F_power_history
  | F_temp_history
  | F_last_update_time
  | F_poll_latency

definition same_field :: "field \<Rightarrow> PowerData \<Rightarrow> PowerData \<Rightarrow> bool" where
  "same_field f s s' =
     (case f of
        F_power_source \<Rightarrow> power_source s' = power_source s
      | F_battery_percent \<Rightarrow> battery_percent s' = battery_percent s
      | F_charging_status \<Rightarrow> charging_status s' = charging_status s
      | F_time_remaining \<Rightarrow> time_remaining s' = time_remaining s
      | F_cycle_count \<Rightarrow> cycle_count s' = cycle_count s
      | F_condition \<Rightarrow> condition s' = condition s
      | F_max_capacity_percent \<Rightarrow> max_capacity_percent s' = max_capacity_percent s
      | F_charger_wattage \<Rightarrow> charger_wattage s' = charger_wattage s
      | F_charger_connected \<Rightarrow> charger_connected s' = charger_connected s
      | F_fully_charged \<Rightarrow> fully_charged s' = fully_charged s
      | F_low_power_mode \<Rightarrow> low_power_mode s' = low_power_mode s
      | F_temperature \<Rightarrow> temperature s' = temperature s
      | F_voltage \<Rightarrow> voltage s' = voltage s
      | F_amperage \<Rightarrow> amperage s' = amperage s
      | F_power_watts \<Rightarrow> power_watts s' = power_watts s
      | F_adapter_voltage \<Rightarrow> adapter_voltage s' = adapter_voltage s
      | F_adapter_current \<Rightarrow> adapter_current s' = adapter_current s
      | F_adapter_watts \<Rightarrow> adapter_watts s' = adapter_watts s
      | F_serial \<Rightarrow> serial s' = serial s
      | F_design_capacity \<Rightarrow> design_capacity s' = design_capacity s
      | F_current_capacity \<Rightarrow> current_capacity s' = current_capacity s
      | F_mode \<Rightarrow> mode s' = mode s
      | F_poll_interval \<Rightarrow> poll_interval s' = poll_interval s
      | F_power_history \<Rightarrow> power_history s' = power_history s
      | F_temp_history \<Rightarrow> temp_history s' = temp_history s
      | F_last_update_time \<Rightarrow> last_update_time s' = last_update_time s
      | F_poll_latency \<Rightarrow> poll_latency s' = poll_latency s)"

definition agree_off :: "field set \<Rightarrow> PowerData \<Rightarrow> PowerData \<Rightarrow> bool" where
  \<comment> \<open>the two snapshots agree on every field outside the set\<close>
  "agree_off F s s' \<longleftrightarrow> (\<forall>f. f \<notin> F \<longrightarrow> same_field f s s')"

definition found :: "string option \<Rightarrow> field set \<Rightarrow> field set" where
  "found m F = (case m of Some g \<Rightarrow> F | None \<Rightarrow> {})"

definition touched_adapter :: "string \<Rightarrow> field set" where
  "touched_adapter ad_str =
     found (re_search (match_sub ''AdapterVoltage'') ('' '' @ ad_str)) {F_adapter_voltage} \<union>
     found (re_search (match_sub ''Current'') ('' '' @ ad_str)) {F_adapter_current} \<union>
     found (re_search (match_sub ''Watts'') ('' '' @ ad_str)) {F_charger_wattage}"

definition touched :: "string \<Rightarrow> field set" where
  \<comment> \<open>the fields that the first block can assign on a given text\<close>
  "touched txt =
     {F_power_source, F_charger_connected, F_charging_status,
      F_power_watts, F_power_history, F_poll_latency} \<union>
     (if re_search (match_uint ''\"CurrentCapacity\"'') txt \<noteq> None \<and>
         re_search (match_uint ''\"MaxCapacity\"'') txt \<noteq> None
      then {F_battery_percent} else {}) \<union>
     found (re_search (match_uint ''\"TimeRemaining\"'') txt) {F_time_remaining} \<union>
     found (re_search (match_uint ''\"Temperature\"'') txt) {F_temperature} \<union>
     found (re_search (match_uint ''\"Voltage\"'') txt) {F_voltage} \<union>
     found (search_amperage txt) {F_amperage} \<union>
     found (re_search (match_uint ''\"CycleCount\"'') txt) {F_cycle_count} \<union>
     found (re_search (match_uint ''\"DesignCapacity\"'') txt) {F_design_capacity} \<union>
     found (re_search (match_uint ''\"AppleRawMaxCapacity\"'') txt)
       {F_current_capacity, F_max_capacity_percent} \<union>
     (case re_search match_adapter_details txt of
        Some ad_str \<Rightarrow> touched_adapter ad_str
      | None \<Rightarrow> {})"

text \<open>
  The group 1 that a sub-field pattern finds inside the adapter group of a text, if the
  adapter group is there: what \<^const>\<open>parse_adapter\<close> converts.
\<close>

definition adapter_sub :: "string \<Rightarrow> string \<Rightarrow> string option" where
  "adapter_sub name txt =
     (case re_search match_adapter_details txt of
        Some ad_str \<Rightarrow> re_search (match_sub name) ('' '' @ ad_str)
      | None \<Rightarrow> None)"

text \<open>
  Two predicates on numbers for the statements below: a finite number that is not
  negative, and a number that is not negative and may be the positive infinity.
\<close>

definition finite_nonneg :: "pynum \<Rightarrow> bool" where
  "finite_nonneg x =
     (case x of
        PInt a \<Rightarrow> 0 \<le> a
      | PFloat u \<Rightarrow> (case u of Fin a \<Rightarrow> 0 \<le> a | _ \<Rightarrow> False))"

definition nonneg_num :: "pynum \<Rightarrow> bool" where
  "nonneg_num x =
     (case x of
        PInt a \<Rightarrow> 0 \<le> a
      | PFloat u \<Rightarrow> (case u of Fin a \<Rightarrow> 0 \<le> a | PInf \<Rightarrow> True | _ \<Rightarrow> False))"

section \<open>The constructor and the source adapter\<close>

text \<open>
  C9, as stated: the constructor sets every string status field to \<^verbatim>\<open>'Unknown'\<close> and
  every numeric field to \<^verbatim>\<open>0\<close>. The battery condition starts as
  \<^verbatim>\<open>'Checking...'\<close> and the health percent as \<^verbatim>\<open>100\<close>.
\<close>

theorem init_condition_and_health_differ:
  "condition PowerData_init = ''Checking...'' \<and> condition PowerData_init \<noteq> ''Unknown'' \<and>
   max_capacity_percent PowerData_init = PInt 100 \<and> max_capacity_percent PowerData_init \<noteq> PInt 0"
  by (simp add: PowerData_init_def)

text \<open>
  C9, amended: the constructor sets power source, charging status, time remaining and
  serial to \<^verbatim>\<open>'Unknown'\<close>, the condition to \<^verbatim>\<open>'Checking...'\<close>, the health percent
  to \<^verbatim>\<open>100\<close>, every other numeric field to \<^verbatim>\<open>0\<close>, the three flags to false, the
  poll mode to \<^verbatim>\<open>BALANCED\<close> with the interval \<^verbatim>\<open>2.0\<close>, and both histories to empty
  deques of capacity 100; the collector is created on this snapshot.
\<close>

theorem init_defaults:
  "power_source PowerData_init = ''Unknown'' \<and>
   charging_status PowerData_init = ''Unknown'' \<and>
   time_remaining PowerData_init = ''Unknown'' \<and>
   serial PowerData_init = ''Unknown'' \<and>
   condition PowerData_init = ''Checking...'' \<and>
   max_capacity_percent PowerData_init = PInt 100 \<and>
   battery_percent PowerData_init = 0 \<and>
   cycle_count PowerData_init = 0 \<and>
   charger_wattage PowerData_init = 0 \<and>
   temperature PowerData_init = PInt 0 \<and>
   voltage PowerData_init = PInt 0 \<and>
   amperage PowerData_init = 0 \<and>
   power_watts PowerData_init = PInt 0 \<and>
   adapter_voltage PowerData_init = PInt 0 \<and>
   adapter_current PowerData_init = 0 \<and>
   adapter_watts PowerData_init = 0 \<and>
   design_capacity PowerData_init = 0 \<and>
   current_capacity PowerData_init = 0 \<and>
   last_update_time PowerData_init = PInt 0 \<and>
   poll_latency PowerData_init = PInt 0 \<and>
   charger_connected PowerData_init = False \<and>
   fully_charged PowerData_init = False \<and>
   low_power_mode PowerData_init = False \<and>
   mode PowerData_init = ''BALANCED'' \<and>
   poll_interval PowerData_init = Fin 2 \<and>
   power_history PowerData_init = Deque 100 [] \<and>
   temp_history PowerData_init = Deque 100 [] \<and>
   data (collector_init PowerData_init) = PowerData_init \<and>
   last_slow_check (collector_init PowerData_init) = PInt 0"
  by (simp add: PowerData_init_def collector_init_def)

text \<open>
  C4, as stated: \<^verbatim>\<open>run_command\<close> returns empty text when the process exits with a
  non-zero code. A process that prints \<^verbatim>\<open>partial\<close> and exits with code 1 yields
  \<^verbatim>\<open>partial\<close>.
\<close>

theorem run_command_nonzero_exit_keeps_output:
  "run_command (Completed 1 ''partial'') = Inr ''partial'' \<and>
   run_command (Completed 1 ''partial'') \<noteq> Inr []"
  by (simp add: run_command_def subprocess_run_def)

text \<open>
  C4, amended: for every argument list \<^verbatim>\<open>run_command\<close> raises nothing; it returns
  the captured standard output whenever the process completes, whatever its exit code,
  and empty text when the call to \<^verbatim>\<open>subprocess.run\<close> raises (timeout after 5
  seconds, spawn error, undecodable output).
\<close>

theorem run_command_total:
  "(\<exists>out. run_command r = Inr out) \<and>
   run_command (Completed rc out) = Inr out \<and>
   run_command (Failed e) = Inr []"
  by (cases r) (simp_all add: run_command_def subprocess_run_def)

section \<open>Frame lemmas\<close>

lemma state_of_simps [simp]: "state_of (Done s) = s" "state_of (Raised e s) = s"
  by (simp_all add: state_of_def)

lemma and_then_simps [simp]: "and_then (Done s) f = f s" "and_then (Raised e s) f = Raised e s"
  by (simp_all add: and_then_def)

lemma assign_simps [simp]: "assign s (Inl e) upd = Raised e s" "assign s (Inr v) upd = Done (upd v)"
  by (simp_all add: assign_def)

lemma bind_exc_simps [simp]: "bind_exc (Inl e) f = Inl e" "bind_exc (Inr v) f = f v"
  by (simp_all add: bind_exc_def)

lemma and_then_Done_iff: "and_then r f = Done s' \<longleftrightarrow> (\<exists>s1. r = Done s1 \<and> f s1 = Done s')"
  by (cases r) simp_all

lemma same_field_refl: "same_field f s s"
  by (cases f) (simp_all add: same_field_def)

lemma same_field_trans: "same_field f s s1 \<Longrightarrow> same_field f s1 s2 \<Longrightarrow> same_field f s s2"
  by (cases f) (simp_all add: same_field_def)

lemma agree_off_refl: "agree_off F s s"
  by (simp add: agree_off_def same_field_refl)

lemma agree_off_trans: "agree_off A s s1 \<Longrightarrow> agree_off B s1 s2 \<Longrightarrow> agree_off (A \<union> B) s s2"
  unfolding agree_off_def by (blast intro: same_field_trans)

lemma agree_off_mono: "agree_off A s s' \<Longrightarrow> A \<subseteq> B \<Longrightarrow> agree_off B s s'"
  unfolding agree_off_def by blast

lemma agree_off_and_then:
  assumes "agree_off A s (state_of r)" and "\<And>s1. agree_off B s1 (state_of (f s1))"
  shows "agree_off (A \<union> B) s (state_of (and_then r f))"
proof (cases r)
  case (Done s1)
  then show ?thesis
    using assms(1) assms(2)[of s1] by (simp add: agree_off_trans)
next
  case (Raised e s1)
  then have "agree_off A s (state_of (and_then r f))"
    using assms(1) by simp
  then show ?thesis
    by (rule agree_off_mono) simp
qed

lemma agree_off_assign:
  assumes "\<And>v. agree_off F s (upd v)"
  shows "agree_off F s (state_of (assign s rhs upd))"
  using assms by (cases rhs) (simp_all add: agree_off_refl)

lemma agree_offD: "agree_off F s s' \<Longrightarrow> f \<notin> F \<Longrightarrow> same_field f s s'"
  by (simp add: agree_off_def)

lemma upd_battery_percent: "agree_off {F_battery_percent} s (s\<lparr>battery_percent := v\<rparr>)"
  unfolding agree_off_def by (intro allI) (case_tac f; simp add: same_field_def)

lemma upd_time_remaining: "agree_off {F_time_remaining} s (s\<lparr>time_remaining := v\<rparr>)"
  unfolding agree_off_def by (intro allI) (case_tac f; simp add: same_field_def)

lemma upd_temperature: "agree_off {F_temperature} s (s\<lparr>temperature := v\<rparr>)"
  unfolding agree_off_def by (intro allI) (case_tac f; simp add: same_field_def)

lemma upd_voltage: "agree_off {F_voltage} s (s\<lparr>voltage := v\<rparr>)"
  unfolding agree_off_def by (intro allI) (case_tac f; simp add: same_field_def)

lemma upd_amperage: "agree_off {F_amperage} s (s\<lparr>amperage := v\<rparr>)"
  unfolding agree_off_def by (intro allI) (case_tac f; simp add: same_field_def)

lemma upd_cycle_count: "agree_off {F_cycle_count} s (s\<lparr>cycle_count := v\<rparr>)"
  unfolding agree_off_def by (intro allI) (case_tac f; simp add: same_field_def)

lemma upd_design_capacity: "agree_off {F_design_capacity} s (s\<lparr>design_capacity := v\<rparr>)"
  unfolding agree_off_def by (intro allI) (case_tac f; simp add: same_field_def)

lemma upd_current_capacity: "agree_off {F_current_capacity} s (s\<lparr>current_capacity := v\<rparr>)"
  unfolding agree_off_def by (intro allI) (case_tac f; simp add: same_field_def)

lemma upd_max_capacity_percent: "agree_off {F_max_capacity_percent} s (s\<lparr>max_capacity_percent := v\<rparr>)"
  unfolding agree_off_def by (intro allI) (case_tac f; simp add: same_field_def)

lemma upd_adapter_voltage: "agree_off {F_adapter_voltage} s (s\<lparr>adapter_voltage := v\<rparr>)"
  unfolding agree_off_def by (intro allI) (case_tac f; simp add: same_field_def)

lemma upd_adapter_current: "agree_off {F_adapter_current} s (s\<lparr>adapter_current := v\<rparr>)"
  unfolding agree_off_def by (intro allI) (case_tac f; simp add: same_field_def)

lemma upd_charger_wattage: "agree_off {F_charger_wattage} s (s\<lparr>charger_wattage := v\<rparr>)"
  unfolding agree_off_def by (intro allI) (case_tac f; simp add: same_field_def)

lemma upd_poll_latency: "agree_off {F_poll_latency} s (s\<lparr>poll_latency := v\<rparr>)"
  unfolding agree_off_def by (intro allI) (case_tac f; simp add: same_field_def)

lemma upd_charging_status: "agree_off {F_charging_status} s (s\<lparr>charging_status := v\<rparr>)"
  unfolding agree_off_def by (intro allI) (case_tac f; simp add: same_field_def)

lemma upd_source:
  "agree_off {F_power_source, F_charger_connected} s (s\<lparr>power_source := a, charger_connected := b\<rparr>)"
  unfolding agree_off_def by (intro allI) (case_tac f; simp add: same_field_def)

lemma upd_power:
  "agree_off {F_power_watts, F_power_history} s (s\<lparr>power_watts := a, power_history := b\<rparr>)"
  unfolding agree_off_def by (intro allI) (case_tac f; simp add: same_field_def)

lemma upd_slow:
  "agree_off {F_condition, F_low_power_mode} s (s\<lparr>condition := a, low_power_mode := b\<rparr>)"
  unfolding agree_off_def by (intro allI) (case_tac f; simp add: same_field_def)

lemma upd_low_power_mode:
  "agree_off {F_condition, F_low_power_mode} s (s\<lparr>low_power_mode := b\<rparr>)"
  unfolding agree_off_def by (intro allI) (case_tac f; simp add: same_field_def)

lemma parse_source_frame:
  "agree_off {F_power_source, F_charger_connected} s (state_of (parse_source txt s))"
  by (simp add: parse_source_def upd_source)

lemma parse_percent_frame:
  "agree_off (if re_search (match_uint ''\"CurrentCapacity\"'') txt \<noteq> None \<and>
                 re_search (match_uint ''\"MaxCapacity\"'') txt \<noteq> None
              then {F_battery_percent} else {}) s (state_of (parse_percent txt s))"
  by (auto simp add: parse_percent_def agree_off_refl
           intro!: agree_off_assign upd_battery_percent split: option.splits)

lemma parse_status_frame:
  "agree_off {F_charging_status} s (state_of (parse_status txt s))"
  by (simp add: parse_status_def Let_def upd_charging_status)

lemma parse_time_frame:
  "agree_off (found (re_search (match_uint ''\"TimeRemaining\"'') txt) {F_time_remaining}) s (state_of (parse_time txt s))"
  by (cases "re_search (match_uint ''\"TimeRemaining\"'') txt")
     (auto simp add: parse_time_def found_def agree_off_refl intro!: agree_off_assign upd_time_remaining)

lemma parse_temperature_frame:
  "agree_off (found (re_search (match_uint ''\"Temperature\"'') txt) {F_temperature}) s (state_of (parse_temperature txt s))"
  by (cases "re_search (match_uint ''\"Temperature\"'') txt")
     (auto simp add: parse_temperature_def found_def agree_off_refl intro!: agree_off_assign upd_temperature)

lemma parse_voltage_frame:
  "agree_off (found (re_search (match_uint ''\"Voltage\"'') txt) {F_voltage}) s (state_of (parse_voltage txt s))"
  by (cases "re_search (match_uint ''\"Voltage\"'') txt")
     (auto simp add: parse_voltage_def found_def agree_off_refl intro!: agree_off_assign upd_voltage)

lemma parse_amperage_frame:
  "agree_off (found (search_amperage txt) {F_amperage}) s (state_of (parse_amperage txt s))"
  by (cases "search_amperage txt")
     (auto simp add: parse_amperage_def found_def agree_off_refl intro!: agree_off_assign upd_amperage)

lemma update_power_frame:
  "agree_off {F_power_watts, F_power_history} s (state_of (update_power s))"
  by (auto simp add: update_power_def intro!: agree_off_assign upd_power)

lemma parse_cycle_count_frame:
  "agree_off (found (re_search (match_uint ''\"CycleCount\"'') txt) {F_cycle_count}) s (state_of (parse_cycle_count txt s))"
  by (cases "re_search (match_uint ''\"CycleCount\"'') txt")
     (auto simp add: parse_cycle_count_def found_def agree_off_refl intro!: agree_off_assign upd_cycle_count)

lemma parse_design_capacity_frame:
  "agree_off (found (re_search (match_uint ''\"DesignCapacity\"'') txt) {F_design_capacity}) s (state_of (parse_design_capacity txt s))"
  by (cases "re_search (match_uint ''\"DesignCapacity\"'') txt")
     (auto simp add: parse_design_capacity_def found_def agree_off_refl intro!: agree_off_assign upd_design_capacity)

lemma parse_raw_max_capacity_frame:
  "agree_off (found (re_search (match_uint ''\"AppleRawMaxCapacity\"'') txt)
                {F_current_capacity, F_max_capacity_percent}) s
     (state_of (parse_raw_max_capacity txt s))"
proof (cases "re_search (match_uint ''\"AppleRawMaxCapacity\"'') txt")
  case None
  then show ?thesis
    by (simp add: parse_raw_max_capacity_def found_def agree_off_refl)
next
  case (Some g)
  have "agree_off ({F_current_capacity} \<union> {F_max_capacity_percent}) s
          (state_of (and_then (assign s (py_int g) (\<lambda>v. s\<lparr>current_capacity := v\<rparr>)) (\<lambda>s1.
             if design_capacity s1 > 0
             then assign s1 (health_percent (current_capacity s1) (design_capacity s1))
                    (\<lambda>p. s1\<lparr>max_capacity_percent := p\<rparr>)
             else Done s1)))"
    by (rule agree_off_and_then)
       (auto simp add: agree_off_refl intro!: agree_off_assign upd_current_capacity
          upd_max_capacity_percent)
  then show ?thesis
    using Some by (simp add: parse_raw_max_capacity_def found_def insert_commute)
qed

lemma parse_adapter_voltage_frame:
  "agree_off (found (re_search (match_sub ''AdapterVoltage'') ('' '' @ ad)) {F_adapter_voltage}) s
     (state_of (parse_adapter_voltage ad s))"
  by (cases "re_search (match_sub ''AdapterVoltage'') ('' '' @ ad)")
     (auto simp add: parse_adapter_voltage_def found_def agree_off_refl
           intro!: agree_off_assign upd_adapter_voltage)

lemma parse_adapter_current_frame:
  "agree_off (found (re_search (match_sub ''Current'') ('' '' @ ad)) {F_adapter_current}) s
     (state_of (parse_adapter_current ad s))"
  by (cases "re_search (match_sub ''Current'') ('' '' @ ad)")
     (auto simp add: parse_adapter_current_def found_def agree_off_refl
           intro!: agree_off_assign upd_adapter_current)

lemma parse_adapter_watts_frame:
  "agree_off (found (re_search (match_sub ''Watts'') ('' '' @ ad)) {F_charger_wattage}) s
     (state_of (parse_adapter_watts ad s))"
  by (cases "re_search (match_sub ''Watts'') ('' '' @ ad)")
     (auto simp add: parse_adapter_watts_def found_def agree_off_refl
           intro!: agree_off_assign upd_charger_wattage)

lemma parse_adapter_frame:
  "agree_off (case re_search match_adapter_details txt of
                Some ad \<Rightarrow> touched_adapter ad | None \<Rightarrow> {}) s
     (state_of (parse_adapter txt s))"
proof (cases "re_search match_adapter_details txt")
  case None
  then show ?thesis
    by (simp add: parse_adapter_def agree_off_refl)
next
  case (Some ad)
  have "agree_off (touched_adapter ad) s
          (state_of (and_then (and_then (parse_adapter_voltage ad s) (parse_adapter_current ad))
             (parse_adapter_watts ad)))"
    unfolding touched_adapter_def
    by (intro agree_off_and_then parse_adapter_voltage_frame parse_adapter_current_frame
          parse_adapter_watts_frame)
  then show ?thesis
    using Some by (simp add: parse_adapter_def)
qed

lemma update_latency_frame:
  "agree_off {F_poll_latency} s (state_of (update_latency t0 t1 s))"
  by (auto simp add: update_latency_def intro!: agree_off_assign upd_poll_latency)

lemma update_primary_frame:
  "agree_off (touched txt) s (state_of (update_primary txt t0 t1 s))"
proof -
  have "agree_off
          ({F_power_source, F_charger_connected} \<union>
           (if re_search (match_uint ''\"CurrentCapacity\"'') txt \<noteq> None \<and>
               re_search (match_uint ''\"MaxCapacity\"'') txt \<noteq> None
            then {F_battery_percent} else {}) \<union>
           {F_charging_status} \<union>
           found (re_search (match_uint ''\"TimeRemaining\"'') txt) {F_time_remaining} \<union>
           found (re_search (match_uint ''\"Temperature\"'') txt) {F_temperature} \<union>
           found (re_search (match_uint ''\"Voltage\"'') txt) {F_voltage} \<union>
           found (search_amperage txt) {F_amperage} \<union>
           {F_power_watts, F_power_history} \<union>
           found (re_search (match_uint ''\"CycleCount\"'') txt) {F_cycle_count} \<union>
           found (re_search (match_uint ''\"DesignCapacity\"'') txt) {F_design_capacity} \<union>
           found (re_search (match_uint ''\"AppleRawMaxCapacity\"'') txt)
             {F_current_capacity, F_max_capacity_percent} \<union>
           (case re_search match_adapter_details txt of
              Some ad \<Rightarrow> touched_adapter ad | None \<Rightarrow> {}) \<union>
           {F_poll_latency})
          s (state_of (update_primary txt t0 t1 s))"
    unfolding update_primary_def
    by (intro agree_off_and_then parse_source_frame parse_percent_frame parse_status_frame
          parse_time_frame parse_temperature_frame parse_voltage_frame parse_amperage_frame
          update_power_frame parse_cycle_count_frame parse_design_capacity_frame
          parse_raw_max_capacity_frame parse_adapter_frame update_latency_frame)
  then show ?thesis
    by (rule agree_off_mono) (auto simp add: touched_def)
qed

lemma slow_check_frame:
  "agree_off (found (re_search match_condition prof_out) {F_condition} \<union> {F_low_power_mode}) s
     (slow_check prof_out lpm_out s)"
  unfolding agree_off_def
  by (intro allI) (case_tac f; simp add: same_field_def slow_check_def found_def Let_def
                     split: option.splits)

section \<open>Parse misses\<close>

lemma untouched:
  "f \<notin> touched txt \<Longrightarrow> same_field f s (state_of (update_primary txt t0 t1 s))"
  using update_primary_frame by (rule agree_offD)

lemma same_field_and_then:
  assumes "\<And>s1. same_field fld s1 (state_of (f s1))"
  shows "same_field fld (state_of r) (state_of (and_then r f))"
  using assms by (cases r) (simp_all add: same_field_refl)

lemma power_source_kept:
  assumes "\<And>s1. agree_off F s1 (state_of (f s1))"
    and "F_power_source \<notin> F" and "F_charger_connected \<notin> F"
    and "power_source (state_of r) = a \<and> charger_connected (state_of r) = b"
  shows "power_source (state_of (and_then r f)) = a \<and> charger_connected (state_of (and_then r f)) = b"
proof (cases r)
  case (Done s1)
  have "same_field F_power_source s1 (state_of (f s1))"
    and "same_field F_charger_connected s1 (state_of (f s1))"
    using assms(1)[of s1] assms(2,3) by (auto dest: agree_offD)
  then show ?thesis
    using assms(4) Done by (simp add: same_field_def)
next
  case (Raised e s1)
  then show ?thesis
    using assms(4) by simp
qed

lemma power_source_after:
  "power_source (state_of (update_primary txt t0 t1 s)) =
     (if ext_conn txt then ''AC Power'' else ''Battery'') \<and>
   charger_connected (state_of (update_primary txt t0 t1 s)) = ext_conn txt"
  unfolding update_primary_def
  apply (rule power_source_kept [OF update_latency_frame], simp, simp)
  apply (rule power_source_kept [OF parse_adapter_frame])
    apply (simp add: touched_adapter_def found_def split: option.splits)
   apply (simp add: touched_adapter_def found_def split: option.splits)
  apply (rule power_source_kept [OF parse_raw_max_capacity_frame])
    apply (simp add: found_def split: option.splits)
   apply (simp add: found_def split: option.splits)
  apply (rule power_source_kept [OF parse_design_capacity_frame])
    apply (simp add: found_def split: option.splits)
   apply (simp add: found_def split: option.splits)
  apply (rule power_source_kept [OF parse_cycle_count_frame])
    apply (simp add: found_def split: option.splits)
   apply (simp add: found_def split: option.splits)
  apply (rule power_source_kept [OF update_power_frame], simp, simp)
  apply (rule power_source_kept [OF parse_amperage_frame])
    apply (simp add: found_def split: option.splits)
   apply (simp add: found_def split: option.splits)
  apply (rule power_source_kept [OF parse_voltage_frame])
    apply (simp add: found_def split: option.splits)
   apply (simp add: found_def split: option.splits)
  apply (rule power_source_kept [OF parse_temperature_frame])
    apply (simp add: found_def split: option.splits)
   apply (simp add: found_def split: option.splits)
  apply (rule power_source_kept [OF parse_time_frame])
    apply (simp add: found_def split: option.splits)
   apply (simp add: found_def split: option.splits)
  apply (rule power_source_kept [OF parse_status_frame], simp, simp)
  apply (rule power_source_kept [OF parse_percent_frame], simp, simp)
  apply (simp add: parse_source_def)
  done

lemma re_search_nil: "re_search m [] = m []"
  by simp

lemma ext_conn_nil: "ext_conn [] = False"
  by (simp add: ext_conn_def)

text \<open>
  C1, as stated: a pass whose text does not contain a field's pattern leaves that field
  unchanged, for every field of the snapshot. The power source is derived from the token
  \<^verbatim>\<open>"ExternalConnected" = Yes\<close>: after a pass on a text without it (here the empty
  text of a failed command) a snapshot that said \<^verbatim>\<open>AC Power\<close> says \<^verbatim>\<open>Battery\<close>.
\<close>

theorem power_source_reset_on_miss:
  "contains ''\"ExternalConnected\" = Yes'' [] = False \<and>
   contains ''\"AppleRawExternalConnected\" = Yes'' [] = False \<and>
   power_source (PowerData_init\<lparr>power_source := ''AC Power''\<rparr>) = ''AC Power'' \<and>
   power_source (state_of (update_primary [] (Fin 0) (Fin 0)
     (PowerData_init\<lparr>power_source := ''AC Power''\<rparr>))) = ''Battery''"
  by (simp add: power_source_after ext_conn_nil)

lemma in_found: "f \<in> found m F \<longleftrightarrow> m \<noteq> None \<and> f \<in> F"
  by (cases m) (simp_all add: found_def)

lemma in_case_option:
  "f \<in> (case m of Some a \<Rightarrow> T a | None \<Rightarrow> {}) \<longleftrightarrow> (\<exists>a. m = Some a \<and> f \<in> T a)"
  by (cases m) simp_all

text \<open>
  C1, amended: a pass whose text has no match for the pattern of a parsed field leaves
  that field unchanged. This holds for battery percent (when either capacity pattern is
  missing), time remaining, temperature, voltage, amperage (when both amperage patterns
  are missing), cycle count, design capacity, current capacity, health percent, and the
  adapter voltage, current and wattage; the slow check leaves the condition unchanged
  when its pattern is missing; and no pass changes the fully-charged flag, adapter watts,
  serial, poll mode, poll interval, temperature history or last update time. A cycle
  count of 42 stays 42. The fields derived from a token are computed from the text
  alone: without the external-connection token the power source becomes
  \<^verbatim>\<open>Battery\<close> and the charger flag false, and without a low-power-mode line the
  low-power flag becomes false.
\<close>

theorem parse_miss_keeps_field:
  assumes "s' = state_of (update_primary txt t0 t1 s)"
  shows "(re_search (match_uint ''\"CurrentCapacity\"'') txt = None \<or> re_search (match_uint ''\"MaxCapacity\"'') txt = None \<longrightarrow>
       battery_percent s' = battery_percent s) \<and>
     (re_search (match_uint ''\"TimeRemaining\"'') txt = None \<longrightarrow>
       time_remaining s' = time_remaining s) \<and>
     (re_search (match_uint ''\"Temperature\"'') txt = None \<longrightarrow>
       temperature s' = temperature s) \<and>
     (re_search (match_uint ''\"Voltage\"'') txt = None \<longrightarrow>
       voltage s' = voltage s) \<and>
     (search_amperage txt = None \<longrightarrow>
       amperage s' = amperage s) \<and>
     (re_search (match_uint ''\"CycleCount\"'') txt = None \<longrightarrow>
       cycle_count s' = cycle_count s) \<and>
     (re_search (match_uint ''\"DesignCapacity\"'') txt = None \<longrightarrow>
       design_capacity s' = design_capacity s) \<and>
     (re_search (match_uint ''\"AppleRawMaxCapacity\"'') txt = None \<longrightarrow>
       current_capacity s' = current_capacity s) \<and>
     (re_search (match_uint ''\"AppleRawMaxCapacity\"'') txt = None \<longrightarrow>
       max_capacity_percent s' = max_capacity_percent s) \<and>
     (adapter_sub ''AdapterVoltage'' txt = None \<longrightarrow>
       adapter_voltage s' = adapter_voltage s) \<and>
     (adapter_sub ''Current'' txt = None \<longrightarrow>
       adapter_current s' = adapter_current s) \<and>
     (adapter_sub ''Watts'' txt = None \<longrightarrow>
       charger_wattage s' = charger_wattage s) \<and>
     fully_charged s' = fully_charged s \<and>
     adapter_watts s' = adapter_watts s \<and>
     serial s' = serial s \<and>
     mode s' = mode s \<and>
     poll_interval s' = poll_interval s \<and>
     temp_history s' = temp_history s \<and>
     last_update_time s' = last_update_time s \<and>
     (re_search match_condition prof_out = None \<longrightarrow>
       condition (slow_check prof_out lpm_out s') = condition s') \<and>
     (re_search match_lowpowermode lpm_out = None \<longrightarrow>
       low_power_mode (slow_check prof_out lpm_out s') = False) \<and>
     (\<not> ext_conn txt \<longrightarrow> power_source s' = ''Battery'' \<and> charger_connected s' = False)"
proof -
  have U: "same_field f s s'" if "f \<notin> touched txt" for f
    using that untouched assms by simp
  have k0: "battery_percent s' = battery_percent s" if "re_search (match_uint ''\"CurrentCapacity\"'') txt = None \<or> re_search (match_uint ''\"MaxCapacity\"'') txt = None"
    using U [of F_battery_percent] that
    by (simp add: touched_def touched_adapter_def adapter_sub_def in_found in_case_option
          same_field_def)
  have k1: "time_remaining s' = time_remaining s" if "re_search (match_uint ''\"TimeRemaining\"'') txt = None"
    using U [of F_time_remaining] that
    by (simp add: touched_def touched_adapter_def adapter_sub_def in_found in_case_option
          same_field_def)
  have k2: "temperature s' = temperature s" if "re_search (match_uint ''\"Temperature\"'') txt = None"
    using U [of F_temperature] that
    by (simp add: touched_def touched_adapter_def adapter_sub_def in_found in_case_option
          same_field_def)
  have k3: "voltage s' = voltage s" if "re_search (match_uint ''\"Voltage\"'') txt = None"
    using U [of F_voltage] that
    by (simp add: touched_def touched_adapter_def adapter_sub_def in_found in_case_option
          same_field_def)
  have k4: "amperage s' = amperage s" if "search_amperage txt = None"
    using U [of F_amperage] that
    by (simp add: touched_def touched_adapter_def adapter_sub_def in_found in_case_option
          same_field_def)
  have k5: "cycle_count s' = cycle_count s" if "re_search (match_uint ''\"CycleCount\"'') txt = None"
    using U [of F_cycle_count] that
    by (simp add: touched_def touched_adapter_def adapter_sub_def in_found in_case_option
          same_field_def)
  have k6: "design_capacity s' = design_capacity s" if "re_search (match_uint ''\"DesignCapacity\"'') txt = None"
    using U [of F_design_capacity] that
    by (simp add: touched_def touched_adapter_def adapter_sub_def in_found in_case_option
          same_field_def)
  have k7: "current_capacity s' = current_capacity s" if "re_search (match_uint ''\"AppleRawMaxCapacity\"'') txt = None"
    using U [of F_current_capacity] that
    by (simp add: touched_def touched_adapter_def adapter_sub_def in_found in_case_option
          same_field_def)
  have k8: "max_capacity_percent s' = max_capacity_percent s" if "re_search (match_uint ''\"AppleRawMaxCapacity\"'') txt = None"
    using U [of F_max_capacity_percent] that
    by (simp add: touched_def touched_adapter_def adapter_sub_def in_found in_case_option
          same_field_def)
  have k9: "adapter_voltage s' = adapter_voltage s" if "adapter_sub ''AdapterVoltage'' txt = None"
    using U [of F_adapter_voltage] that
    by (cases "re_search match_adapter_details txt")
       (simp_all add: touched_def touched_adapter_def adapter_sub_def in_found same_field_def
          del: re_search.simps)
  have k10: "adapter_current s' = adapter_current s" if "adapter_sub ''Current'' txt = None"
    using U [of F_adapter_current] that
    by (cases "re_search match_adapter_details txt")
       (simp_all add: touched_def touched_adapter_def adapter_sub_def in_found same_field_def
          del: re_search.simps)
  have k11: "charger_wattage s' = charger_wattage s" if "adapter_sub ''Watts'' txt = None"
    using U [of F_charger_wattage] that
    by (cases "re_search match_adapter_details txt")
       (simp_all add: touched_def touched_adapter_def adapter_sub_def in_found same_field_def
          del: re_search.simps)
  have a0: "fully_charged s' = fully_charged s"
    using U [of F_fully_charged]
    by (simp add: touched_def touched_adapter_def in_found in_case_option same_field_def)
  have a1: "adapter_watts s' = adapter_watts s"
    using U [of F_adapter_watts]
    by (simp add: touched_def touched_adapter_def in_found in_case_option same_field_def)
  have a2: "serial s' = serial s"
    using U [of F_serial]
    by (simp add: touched_def touched_adapter_def in_found in_case_option same_field_def)
  have a3: "mode s' = mode s"
    using U [of F_mode]
    by (simp add: touched_def touched_adapter_def in_found in_case_option same_field_def)
  have a4: "poll_interval s' = poll_interval s"
    using U [of F_poll_interval]
    by (simp add: touched_def touched_adapter_def in_found in_case_option same_field_def)
  have a5: "temp_history s' = temp_history s"
    using U [of F_temp_history]
    by (simp add: touched_def touched_adapter_def in_found in_case_option same_field_def)
  have a6: "last_update_time s' = last_update_time s"
    using U [of F_last_update_time]
    by (simp add: touched_def touched_adapter_def in_found in_case_option same_field_def)
  have c: "condition (slow_check prof_out lpm_out s') = condition s'"
    if "re_search match_condition prof_out = None"
    using that by (simp add: slow_check_def)
  have l: "low_power_mode (slow_check prof_out lpm_out s') = False"
    if "re_search match_lowpowermode lpm_out = None"
    using that by (simp add: slow_check_def Let_def)
  have p: "power_source s' = ''Battery''" if "\<not> ext_conn txt"
    using that power_source_after [of "txt" t0 t1 s] assms by simp
  have q: "charger_connected s' = False" if "\<not> ext_conn txt"
    using that power_source_after [of "txt" t0 t1 s] assms by simp
  show ?thesis
    by (intro conjI impI k0 k1 k2 k3 k4 k5 k6 k7 k8 k9 k10 k11 a0 a1 a2 a3 a4 a5 a6 c l p q; assumption?)
qed

theorem parse_miss_keeps_field_witness:
  "re_search (match_uint ''\"CycleCount\"'') [] = None \<and>
   cycle_count (PowerData_init\<lparr>cycle_count := 42\<rparr>) = 42 \<and>
   cycle_count (state_of (update_primary [] (Fin 0) (Fin 0)
     (PowerData_init\<lparr>cycle_count := 42\<rparr>))) = 42 \<and>
   power_source (state_of (update_primary [] (Fin 0) (Fin 0)
     (PowerData_init\<lparr>cycle_count := 42\<rparr>))) = ''Battery''"
  using parse_miss_keeps_field [of "state_of (update_primary [] (Fin 0) (Fin 0)
     (PowerData_init\<lparr>cycle_count := 42\<rparr>))" "[]" "Fin 0" "Fin 0"
     "PowerData_init\<lparr>cycle_count := 42\<rparr>" "[]" "[]"]
  by (simp add: match_uint_def lit_def ext_conn_nil)

section \<open>A completed pass, step by step\<close>
lemma update_primary_Done_iff:
  "update_primary txt t0 t1 s = Done s' \<longleftrightarrow>
     (\<exists>a1 a2 a3 a4 a5 a6 a7 a8 a9 a10 a11 a12.
        parse_source txt s = Done a1 \<and>
        parse_percent txt a1 = Done a2 \<and>
        parse_status txt a2 = Done a3 \<and>
        parse_time txt a3 = Done a4 \<and>
        parse_temperature txt a4 = Done a5 \<and>
        parse_voltage txt a5 = Done a6 \<and>
        parse_amperage txt a6 = Done a7 \<and>
        update_power a7 = Done a8 \<and>
        parse_cycle_count txt a8 = Done a9 \<and>
        parse_design_capacity txt a9 = Done a10 \<and>
        parse_raw_max_capacity txt a10 = Done a11 \<and>
        parse_adapter txt a11 = Done a12 \<and>
        update_latency t0 t1 a12 = Done s')"
  unfolding update_primary_def and_then_Done_iff by blast

lemma keeps:
  "agree_off F a (state_of r) \<Longrightarrow> r = Done a' \<Longrightarrow> f \<notin> F \<Longrightarrow> same_field f a a'"
  by (auto dest: agree_offD)
lemma chain_fields:
  assumes c1: "parse_source txt s = Done a1"
    and c2: "parse_percent txt a1 = Done a2"
    and c3: "parse_status txt a2 = Done a3"
    and c4: "parse_time txt a3 = Done a4"
    and c5: "parse_temperature txt a4 = Done a5"
    and c6: "parse_voltage txt a5 = Done a6"
    and c7: "parse_amperage txt a6 = Done a7"
    and c8: "update_power a7 = Done a8"
    and c9: "parse_cycle_count txt a8 = Done a9"
    and c10: "parse_design_capacity txt a9 = Done a10"
    and c11: "parse_raw_max_capacity txt a10 = Done a11"
    and c12: "parse_adapter txt a11 = Done a12"
    and c13: "update_latency t0 t1 a12 = Done s'"
  shows "power_source s' = power_source a1 \<and>
     charger_connected s' = charger_connected a1 \<and>
     battery_percent s' = battery_percent a2 \<and>
     charging_status s' = charging_status a3 \<and>
     time_remaining s' = time_remaining a4 \<and>
     temperature s' = temperature a5 \<and>
     voltage s' = voltage a6 \<and>
     amperage s' = amperage a7 \<and>
     voltage a7 = voltage a6 \<and>
     power_watts s' = power_watts a8 \<and>
     power_history s' = power_history a8 \<and>
     cycle_count s' = cycle_count a9 \<and>
     design_capacity s' = design_capacity a10 \<and>
     design_capacity a11 = design_capacity a10 \<and>
     current_capacity s' = current_capacity a11 \<and>
     max_capacity_percent s' = max_capacity_percent a11 \<and>
     adapter_voltage s' = adapter_voltage a12 \<and>
     adapter_current s' = adapter_current a12 \<and>
     charger_wattage s' = charger_wattage a12 \<and>
     voltage a5 = voltage s \<and>
     max_capacity_percent a10 = max_capacity_percent s \<and>
     current_capacity a10 = current_capacity s \<and>
     power_history a7 = power_history s \<and>
     poll_latency a12 = poll_latency s"
proof -
  have e0: "power_source s' = power_source a1"
    using keeps [OF parse_percent_frame c2, of F_power_source] keeps [OF parse_status_frame c3, of F_power_source] keeps [OF parse_time_frame c4, of F_power_source] keeps [OF parse_temperature_frame c5, of F_power_source] keeps [OF parse_voltage_frame c6, of F_power_source] keeps [OF parse_amperage_frame c7, of F_power_source] keeps [OF update_power_frame c8, of F_power_source] keeps [OF parse_cycle_count_frame c9, of F_power_source] keeps [OF parse_design_capacity_frame c10, of F_power_source] keeps [OF parse_raw_max_capacity_frame c11, of F_power_source] keeps [OF parse_adapter_frame c12, of F_power_source] keeps [OF update_latency_frame c13, of F_power_source]
    by (simp add: same_field_def in_found in_case_option touched_adapter_def)
  have e1: "charger_connected s' = charger_connected a1"
    using keeps [OF parse_percent_frame c2, of F_charger_connected] keeps [OF parse_status_frame c3, of F_charger_connected] keeps [OF parse_time_frame c4, of F_charger_connected] keeps [OF parse_temperature_frame c5, of F_charger_connected] keeps [OF parse_voltage_frame c6, of F_charger_connected] keeps [OF parse_amperage_frame c7, of F_charger_connected] keeps [OF update_power_frame c8, of F_charger_connected] keeps [OF parse_cycle_count_frame c9, of F_charger_connected] keeps [OF parse_design_capacity_frame c10, of F_charger_connected] keeps [OF parse_raw_max_capacity_frame c11, of F_charger_connected] keeps [OF parse_adapter_frame c12, of F_charger_connected] keeps [OF update_latency_frame c13, of F_charger_connected]
    by (simp add: same_field_def in_found in_case_option touched_adapter_def)
  have e2: "battery_percent s' = battery_percent a2"
    using keeps [OF parse_status_frame c3, of F_battery_percent] keeps [OF parse_time_frame c4, of F_battery_percent] keeps [OF parse_temperature_frame c5, of F_battery_percent] keeps [OF parse_voltage_frame c6, of F_battery_percent] keeps [OF parse_amperage_frame c7, of F_battery_percent] keeps [OF update_power_frame c8, of F_battery_percent] keeps [OF parse_cycle_count_frame c9, of F_battery_percent] keeps [OF parse_design_capacity_frame c10, of F_battery_percent] keeps [OF parse_raw_max_capacity_frame c11, of F_battery_percent] keeps [OF parse_adapter_frame c12, of F_battery_percent] keeps [OF update_latency_frame c13, of F_battery_percent]
    by (simp add: same_field_def in_found in_case_option touched_adapter_def)
  have e3: "charging_status s' = charging_status a3"
    using keeps [OF parse_time_frame c4, of F_charging_status] keeps [OF parse_temperature_frame c5, of F_charging_status] keeps [OF parse_voltage_frame c6, of F_charging_status] keeps [OF parse_amperage_frame c7, of F_charging_status] keeps [OF update_power_frame c8, of F_charging_status] keeps [OF parse_cycle_count_frame c9, of F_charging_status] keeps [OF parse_design_capacity_frame c10, of F_charging_status] keeps [OF parse_raw_max_capacity_frame c11, of F_charging_status] keeps [OF parse_adapter_frame c12, of F_charging_status] keeps [OF update_latency_frame c13, of F_charging_status]
    by (simp add: same_field_def in_found in_case_option touched_adapter_def)
  have e4: "time_remaining s' = time_remaining a4"
    using keeps [OF parse_temperature_frame c5, of F_time_remaining] keeps [OF parse_voltage_frame c6, of F_time_remaining] keeps [OF parse_amperage_frame c7, of F_time_remaining] keeps [OF update_power_frame c8, of F_time_remaining] keeps [OF parse_cycle_count_frame c9, of F_time_remaining] keeps [OF parse_design_capacity_frame c10, of F_time_remaining] keeps [OF parse_raw_max_capacity_frame c11, of F_time_remaining] keeps [OF parse_adapter_frame c12, of F_time_remaining] keeps [OF update_latency_frame c13, of F_time_remaining]
    by (simp add: same_field_def in_found in_case_option touched_adapter_def)
  have e5: "temperature s' = temperature a5"
    using keeps [OF parse_voltage_frame c6, of F_temperature] keeps [OF parse_amperage_frame c7, of F_temperature] keeps [OF update_power_frame c8, of F_temperature] keeps [OF parse_cycle_count_frame c9, of F_temperature] keeps [OF parse_design_capacity_frame c10, of F_temperature] keeps [OF parse_raw_max_capacity_frame c11, of F_temperature] keeps [OF parse_adapter_frame c12, of F_temperature] keeps [OF update_latency_frame c13, of F_temperature]
    by (simp add: same_field_def in_found in_case_option touched_adapter_def)
  have e6: "voltage s' = voltage a6"
    using keeps [OF parse_amperage_frame c7, of F_voltage] keeps [OF update_power_frame c8, of F_voltage] keeps [OF parse_cycle_count_frame c9, of F_voltage] keeps [OF parse_design_capacity_frame c10, of F_voltage] keeps [OF parse_raw_max_capacity_frame c11, of F_voltage] keeps [OF parse_adapter_frame c12, of F_voltage] keeps [OF update_latency_frame c13, of F_voltage]
    by (simp add: same_field_def in_found in_case_option touched_adapter_def)
  have e7: "amperage s' = amperage a7"
    using keeps [OF update_power_frame c8, of F_amperage] keeps [OF parse_cycle_count_frame c9, of F_amperage] keeps [OF parse_design_capacity_frame c10, of F_amperage] keeps [OF parse_raw_max_capacity_frame c11, of F_amperage] keeps [OF parse_adapter_frame c12, of F_amperage] keeps [OF update_latency_frame c13, of F_amperage]
    by (simp add: same_field_def in_found in_case_option touched_adapter_def)
  have e8: "voltage a7 = voltage a6"
    using keeps [OF parse_amperage_frame c7, of F_voltage]
    by (simp add: same_field_def in_found in_case_option touched_adapter_def)
  have e9: "power_watts s' = power_watts a8"
    using keeps [OF parse_cycle_count_frame c9, of F_power_watts] keeps [OF parse_design_capacity_frame c10, of F_power_watts] keeps [OF parse_raw_max_capacity_frame c11, of F_power_watts] keeps [OF parse_adapter_frame c12, of F_power_watts] keeps [OF update_latency_frame c13, of F_power_watts]
    by (simp add: same_field_def in_found in_case_option touched_adapter_def)
  have e10: "power_history s' = power_history a8"
    using keeps [OF parse_cycle_count_frame c9, of F_power_history] keeps [OF parse_design_capacity_frame c10, of F_power_history] keeps [OF parse_raw_max_capacity_frame c11, of F_power_history] keeps [OF parse_adapter_frame c12, of F_power_history] keeps [OF update_latency_frame c13, of F_power_history]
    by (simp add: same_field_def in_found in_case_option touched_adapter_def)
  have e11: "cycle_count s' = cycle_count a9"
    using keeps [OF parse_design_capacity_frame c10, of F_cycle_count] keeps [OF parse_raw_max_capacity_frame c11, of F_cycle_count] keeps [OF parse_adapter_frame c12, of F_cycle_count] keeps [OF update_latency_frame c13, of F_cycle_count]
    by (simp add: same_field_def in_found in_case_option touched_adapter_def)
  have e12: "design_capacity s' = design_capacity a10"
    using keeps [OF parse_raw_max_capacity_frame c11, of F_design_capacity] keeps [OF parse_adapter_frame c12, of F_design_capacity] keeps [OF update_latency_frame c13, of F_design_capacity]
    by (simp add: same_field_def in_found in_case_option touched_adapter_def)
  have e13: "design_capacity a11 = design_capacity a10"
    using keeps [OF parse_raw_max_capacity_frame c11, of F_design_capacity]
    by (simp add: same_field_def in_found in_case_option touched_adapter_def)
  have e14: "current_capacity s' = current_capacity a11"
    using keeps [OF parse_adapter_frame c12, of F_current_capacity] keeps [OF update_latency_frame c13, of F_current_capacity]
    by (simp add: same_field_def in_found in_case_option touched_adapter_def)
  have e15: "max_capacity_percent s' = max_capacity_percent a11"
    using keeps [OF parse_adapter_frame c12, of F_max_capacity_percent] keeps [OF update_latency_frame c13, of F_max_capacity_percent]
    by (simp add: same_field_def in_found in_case_option touched_adapter_def)
  have e16: "adapter_voltage s' = adapter_voltage a12"
    using keeps [OF update_latency_frame c13, of F_adapter_voltage]
    by (simp add: same_field_def in_found in_case_option touched_adapter_def)
  have e17: "adapter_current s' = adapter_current a12"
    using keeps [OF update_latency_frame c13, of F_adapter_current]
    by (simp add: same_field_def in_found in_case_option touched_adapter_def)
  have e18: "charger_wattage s' = charger_wattage a12"
    using keeps [OF update_latency_frame c13, of F_charger_wattage]
    by (simp add: same_field_def in_found in_case_option touched_adapter_def)
  have e19: "voltage a5 = voltage s"
    using keeps [OF parse_source_frame c1, of F_voltage] keeps [OF parse_percent_frame c2, of F_voltage] keeps [OF parse_status_frame c3, of F_voltage] keeps [OF parse_time_frame c4, of F_voltage] keeps [OF parse_temperature_frame c5, of F_voltage]
    by (simp add: same_field_def in_found in_case_option touched_adapter_def)
  have e20: "max_capacity_percent a10 = max_capacity_percent s"
    using keeps [OF parse_source_frame c1, of F_max_capacity_percent] keeps [OF parse_percent_frame c2, of F_max_capacity_percent] keeps [OF parse_status_frame c3, of F_max_capacity_percent] keeps [OF parse_time_frame c4, of F_max_capacity_percent] keeps [OF parse_temperature_frame c5, of F_max_capacity_percent] keeps [OF parse_voltage_frame c6, of F_max_capacity_percent] keeps [OF parse_amperage_frame c7, of F_max_capacity_percent] keeps [OF update_power_frame c8, of F_max_capacity_percent] keeps [OF parse_cycle_count_frame c9, of F_max_capacity_percent] keeps [OF parse_design_capacity_frame c10, of F_max_capacity_percent]
    by (simp add: same_field_def in_found in_case_option touched_adapter_def)
  have e21: "current_capacity a10 = current_capacity s"
    using keeps [OF parse_source_frame c1, of F_current_capacity] keeps [OF parse_percent_frame c2, of F_current_capacity] keeps [OF parse_status_frame c3, of F_current_capacity] keeps [OF parse_time_frame c4, of F_current_capacity] keeps [OF parse_temperature_frame c5, of F_current_capacity] keeps [OF parse_voltage_frame c6, of F_current_capacity] keeps [OF parse_amperage_frame c7, of F_current_capacity] keeps [OF update_power_frame c8, of F_current_capacity] keeps [OF parse_cycle_count_frame c9, of F_current_capacity] keeps [OF parse_design_capacity_frame c10, of F_current_capacity]
    by (simp add: same_field_def in_found in_case_option touched_adapter_def)
  have e22: "power_history a7 = power_history s"
    using keeps [OF parse_source_frame c1, of F_power_history] keeps [OF parse_percent_frame c2, of F_power_history] keeps [OF parse_status_frame c3, of F_power_history] keeps [OF parse_time_frame c4, of F_power_history] keeps [OF parse_temperature_frame c5, of F_power_history] keeps [OF parse_voltage_frame c6, of F_power_history] keeps [OF parse_amperage_frame c7, of F_power_history]
    by (simp add: same_field_def in_found in_case_option touched_adapter_def)
  have e23: "poll_latency a12 = poll_latency s"
    using keeps [OF parse_source_frame c1, of F_poll_latency] keeps [OF parse_percent_frame c2, of F_poll_latency] keeps [OF parse_status_frame c3, of F_poll_latency] keeps [OF parse_time_frame c4, of F_poll_latency] keeps [OF parse_temperature_frame c5, of F_poll_latency] keeps [OF parse_voltage_frame c6, of F_poll_latency] keeps [OF parse_amperage_frame c7, of F_poll_latency] keeps [OF update_power_frame c8, of F_poll_latency] keeps [OF parse_cycle_count_frame c9, of F_poll_latency] keeps [OF parse_design_capacity_frame c10, of F_poll_latency] keeps [OF parse_raw_max_capacity_frame c11, of F_poll_latency] keeps [OF parse_adapter_frame c12, of F_poll_latency]
    by (simp add: same_field_def in_found in_case_option touched_adapter_def)
  show ?thesis
    by (intro conjI e0 e1 e2 e3 e4 e5 e6 e7 e8 e9 e10 e11 e12 e13 e14 e15 e16 e17 e18 e19 e20 e21 e22 e23)
qed

section \<open>Evaluation on concrete texts\<close>

lemmas match_defs = match_uint_def match_sint_def lit_def opt_lit_def kv_tail_def digits1_def
  sdigits1_def braces1_def match_adapter_details_def match_sub_def is_space_def is_digit_def
  search_amperage_def ext_conn_def

lemmas num_defs = py_int_def dec_value_def digit_val_def int_max_str_digits_def py_str_def
  str_nat.simps digit_char_def num_mul_def num_truediv_def num_sub_def py_round_def
  int_truediv_def float_of_int_def float_round_def float_mul_def float_truediv_def
  float_sub_def float_add_def float_neg_def fl_def ilog2_def bit_length.simps pow2_def
  round_half_even_def Let_def

lemmas step_defs = update_primary_def parse_source_def parse_percent_def parse_status_def
  parse_time_def format_time_def parse_temperature_def celsius_def parse_voltage_def
  parse_amperage_def signed_amperage_def update_power_def power_formula_def
  parse_cycle_count_def parse_design_capacity_def parse_raw_max_capacity_def
  health_percent_def parse_adapter_def parse_adapter_voltage_def parse_adapter_current_def
  parse_adapter_watts_def update_latency_def latency_ms_def deque_append_def

section \<open>Groups of digits\<close>

lemma digits1_Some: "digits1 s = Some ds \<Longrightarrow> ds \<noteq> [] \<and> list_all is_digit ds"
  by (auto simp add: digits1_def Let_def list_all_iff split: if_splits dest: set_takeWhileD)

lemma match_uint_Some: "match_uint key s = Some ds \<Longrightarrow> ds \<noteq> [] \<and> list_all is_digit ds"
  by (auto simp add: match_uint_def kv_tail_def split: option.splits list.splits if_splits
           dest: digits1_Some)

lemma re_search_Some: "re_search m txt = Some g \<Longrightarrow> \<exists>s. m s = Some g"
  by (induction "txt") (auto split: option.splits)

lemma search_uint_digits:
  "re_search (match_uint key) txt = Some g \<Longrightarrow> g \<noteq> [] \<and> list_all is_digit g"
  by (blast dest: re_search_Some match_uint_Some)

lemma digit_val_nonneg: "is_digit c \<Longrightarrow> 0 \<le> digit_val c"
  by (simp add: is_digit_def digit_val_def Let_def)

lemma foldl_dec_nonneg:
  "0 \<le> a \<Longrightarrow> list_all is_digit ds \<Longrightarrow> 0 \<le> foldl (\<lambda>a c. 10 * a + digit_val c) a ds"
proof (induction ds arbitrary: a)
  case Nil
  then show ?case by simp
next
  case (Cons d ds)
  from Cons.prems have "0 \<le> 10 * a + digit_val d"
    using digit_val_nonneg [of d] by simp
  with Cons show ?case by simp
qed

lemma dec_value_nonneg: "list_all is_digit ds \<Longrightarrow> 0 \<le> dec_value ds"
  by (simp add: dec_value_def foldl_dec_nonneg)

lemma py_int_digits:
  assumes "g \<noteq> []" and "list_all is_digit g" and "py_int g = Inr v"
  shows "v = dec_value g \<and> 0 \<le> v"
proof -
  have "is_digit (hd g)"
    using assms(1,2) by (cases g) simp_all
  then have "hd g \<noteq> CHR ''-''"
    by (auto simp add: is_digit_def)
  then show ?thesis
    using assms by (auto simp add: py_int_def Let_def dec_value_nonneg split: if_splits)
qed

lemma py_int_short:
  "g \<noteq> [] \<Longrightarrow> list_all is_digit g \<Longrightarrow> length g \<le> 4300 \<Longrightarrow> py_int g = Inr (dec_value g)"
  by (cases g) (auto simp add: py_int_def Let_def is_digit_def int_max_str_digits_def)

section \<open>What a step assigns\<close>

lemma parse_percent_Done:
  assumes "parse_percent txt a = Done a'"
    and "re_search (match_uint ''\"CurrentCapacity\"'') txt = Some c"
    and "re_search (match_uint ''\"MaxCapacity\"'') txt = Some m"
    and "py_int c = Inr v"
  shows "battery_percent a' = v"
  using assms by (auto simp add: parse_percent_def)

lemma parse_time_Done:
  assumes "parse_time txt a = Done a'"
    and "re_search (match_uint ''\"TimeRemaining\"'') txt = Some g"
    and "py_int g = Inr mins"
  shows "time_remaining a' = format_time mins"
  using assms by (auto simp add: parse_time_def)

lemma parse_amperage_Done:
  assumes "parse_amperage txt a = Done a'"
    and "search_amperage txt = Some g"
    and "py_int g = Inr amp"
  shows "amperage a' = signed_amperage amp"
  using assms by (auto simp add: parse_amperage_def)

section \<open>Time remaining\<close>

text \<open>
  C6: in a completed pass that finds the raw minute value \<open>mins\<close> for
  \<^verbatim>\<open>TimeRemaining\<close>, the value 65535 gives the display string
  \<^verbatim>\<open>Calculating...\<close> (and not \<^verbatim>\<open>1092h 15m\<close>), and every other value gives
  \<^verbatim>\<open>{mins // 60}h {mins % 60}m\<close>: 125 gives \<^verbatim>\<open>2h 5m\<close> and 0 gives \<^verbatim>\<open>0h 0m\<close>.
\<close>

theorem time_remaining_format:
  assumes "update_primary txt t0 t1 s = Done s'"
    and "re_search (match_uint ''\"TimeRemaining\"'') txt = Some g"
    and "py_int g = Inr mins"
  shows "(mins = 65535 \<longrightarrow>
            time_remaining s' = ''Calculating...'' \<and> time_remaining s' \<noteq> ''1092h 15m'') \<and>
         (mins \<noteq> 65535 \<longrightarrow>
            time_remaining s' = py_str (mins div 60) @ ''h '' @ py_str (mins mod 60) @ ''m'') \<and>
         (mins = 125 \<longrightarrow> time_remaining s' = ''2h 5m'') \<and>
         (mins = 0 \<longrightarrow> time_remaining s' = ''0h 0m'')"
proof -
  from assms(1) obtain a1 a2 a3 a4 a5 a6 a7 a8 a9 a10 a11 a12 where
    c: "parse_source txt s = Done a1" "parse_percent txt a1 = Done a2"
       "parse_status txt a2 = Done a3" "parse_time txt a3 = Done a4"
       "parse_temperature txt a4 = Done a5" "parse_voltage txt a5 = Done a6"
       "parse_amperage txt a6 = Done a7" "update_power a7 = Done a8"
       "parse_cycle_count txt a8 = Done a9" "parse_design_capacity txt a9 = Done a10"
       "parse_raw_max_capacity txt a10 = Done a11" "parse_adapter txt a11 = Done a12"
       "update_latency t0 t1 a12 = Done s'"
    unfolding update_primary_Done_iff by blast
  have "time_remaining s' = time_remaining a4"
    using chain_fields [OF c] by simp
  also have "\<dots> = format_time mins"
    using c(4) assms(2,3) by (rule parse_time_Done)
  finally have t: "time_remaining s' = format_time mins" .
  show ?thesis
    unfolding t by (simp add: format_time_def py_str_def str_nat.simps digit_char_def)
qed

theorem time_remaining_format_witness:
  "time_remaining (state_of (update_primary ''\"TimeRemaining\" = 65535''
     (Fin 0) (Fin 0) PowerData_init)) = ''Calculating...'' \<and>
   time_remaining (state_of (update_primary ''\"TimeRemaining\" = 125''
     (Fin 0) (Fin 0) PowerData_init)) = ''2h 5m'' \<and>
   time_remaining (state_of (update_primary ''\"TimeRemaining\" = 0''
     (Fin 0) (Fin 0) PowerData_init)) = ''0h 0m''"
proof -
  obtain s1 where d1: "update_primary ''\"TimeRemaining\" = 65535''
      (Fin 0) (Fin 0) PowerData_init = Done s1"
    by (simp add: step_defs match_defs num_defs PowerData_init_def)
  have g1: "re_search (match_uint ''\"TimeRemaining\"'') ''\"TimeRemaining\" = 65535''
      = Some ''65535''"
    by (simp add: match_defs)
  have i1: "py_int ''65535'' = Inr 65535"
    by (simp add: num_defs is_digit_def)
  obtain s2 where d2: "update_primary ''\"TimeRemaining\" = 125''
      (Fin 0) (Fin 0) PowerData_init = Done s2"
    by (simp add: step_defs match_defs num_defs PowerData_init_def)
  have g2: "re_search (match_uint ''\"TimeRemaining\"'') ''\"TimeRemaining\" = 125''
      = Some ''125''"
    by (simp add: match_defs)
  have i2: "py_int ''125'' = Inr 125"
    by (simp add: num_defs is_digit_def)
  obtain s3 where d3: "update_primary ''\"TimeRemaining\" = 0''
      (Fin 0) (Fin 0) PowerData_init = Done s3"
    by (simp add: step_defs match_defs num_defs PowerData_init_def)
  have g3: "re_search (match_uint ''\"TimeRemaining\"'') ''\"TimeRemaining\" = 0''
      = Some ''0''"
    by (simp add: match_defs)
  have i3: "py_int ''0'' = Inr 0"
    by (simp add: num_defs is_digit_def)
  show ?thesis
    using time_remaining_format [OF d1 g1 i1] time_remaining_format [OF d2 g2 i2]
      time_remaining_format [OF d3 g3 i3]
    by (simp add: d1 d2 d3 py_str_def str_nat.simps digit_char_def)
qed

section \<open>Battery percent\<close>

text \<open>
  C2, as stated: with \<open>0 \<le> current \<le> max\<close> the battery percent after the update lies
  in \<open>[0, 100]\<close>. The update stores the raw \<^verbatim>\<open>CurrentCapacity\<close> itself, whatever
  \<^verbatim>\<open>MaxCapacity\<close> is: with 500 of 1000 it stores 500.
\<close>

theorem battery_percent_raw_500:
  "re_search (match_uint ''\"CurrentCapacity\"'')
     ''\"CurrentCapacity\" = 500 \"MaxCapacity\" = 1000'' = Some ''500'' \<and>
   re_search (match_uint ''\"MaxCapacity\"'')
     ''\"CurrentCapacity\" = 500 \"MaxCapacity\" = 1000'' = Some ''1000'' \<and>
   py_int ''500'' = Inr 500 \<and> py_int ''1000'' = Inr 1000 \<and>
   battery_percent (state_of (update_primary
     ''\"CurrentCapacity\" = 500 \"MaxCapacity\" = 1000'' (Fin 0) (Fin 0) PowerData_init)) = 500"
  by (simp add: step_defs match_defs num_defs PowerData_init_def)

text \<open>
  C2, amended: in a completed pass whose text has both a \<^verbatim>\<open>CurrentCapacity\<close> and a
  \<^verbatim>\<open>MaxCapacity\<close> value, the battery percent after the update equals the raw
  \<^verbatim>\<open>CurrentCapacity\<close> value (the value of \<^verbatim>\<open>MaxCapacity\<close> is not used); it is
  never negative, and it lies in \<open>[0, 100]\<close> exactly when the raw \<^verbatim>\<open>CurrentCapacity\<close>
  is at most 100.
\<close>

theorem battery_percent_is_current_capacity:
  assumes "update_primary txt t0 t1 s = Done s'"
    and "re_search (match_uint ''\"CurrentCapacity\"'') txt = Some c"
    and "re_search (match_uint ''\"MaxCapacity\"'') txt = Some m"
    and "py_int c = Inr cur"
  shows "battery_percent s' = cur \<and> 0 \<le> battery_percent s' \<and>
         (battery_percent s' \<le> 100 \<longleftrightarrow> cur \<le> 100)"
proof -
  from assms(1) obtain a1 a2 a3 a4 a5 a6 a7 a8 a9 a10 a11 a12 where
    c: "parse_source txt s = Done a1" "parse_percent txt a1 = Done a2"
       "parse_status txt a2 = Done a3" "parse_time txt a3 = Done a4"
       "parse_temperature txt a4 = Done a5" "parse_voltage txt a5 = Done a6"
       "parse_amperage txt a6 = Done a7" "update_power a7 = Done a8"
       "parse_cycle_count txt a8 = Done a9" "parse_design_capacity txt a9 = Done a10"
       "parse_raw_max_capacity txt a10 = Done a11" "parse_adapter txt a11 = Done a12"
       "update_latency t0 t1 a12 = Done s'"
    unfolding update_primary_Done_iff by blast
  have "battery_percent s' = battery_percent a2"
    using chain_fields [OF c] by simp
  also have "\<dots> = cur"
    using c(2) assms(2,3,4) by (rule parse_percent_Done)
  finally have b: "battery_percent s' = cur" .
  have "0 \<le> cur"
    using search_uint_digits [OF assms(2)] assms(4) by (auto dest: py_int_digits)
  with b show ?thesis
    by simp
qed

theorem battery_percent_is_current_capacity_witness:
  "battery_percent (state_of (update_primary
     ''\"CurrentCapacity\" = 87 \"MaxCapacity\" = 100'' (Fin 0) (Fin 0) PowerData_init)) = 87"
proof -
  obtain s1 where d: "update_primary ''\"CurrentCapacity\" = 87 \"MaxCapacity\" = 100''
      (Fin 0) (Fin 0) PowerData_init = Done s1"
    by (simp add: step_defs match_defs num_defs PowerData_init_def)
  have g: "re_search (match_uint ''\"CurrentCapacity\"'')
      ''\"CurrentCapacity\" = 87 \"MaxCapacity\" = 100'' = Some ''87''"
    by (simp add: match_defs)
  have h: "re_search (match_uint ''\"MaxCapacity\"'')
      ''\"CurrentCapacity\" = 87 \"MaxCapacity\" = 100'' = Some ''100''"
    by (simp add: match_defs)
  have i: "py_int ''87'' = Inr 87"
    by (simp add: num_defs is_digit_def)
  show ?thesis
    using battery_percent_is_current_capacity [OF d g h i] by (simp add: d)
qed

section \<open>Amperage\<close>

lemma amperage_parsed:
  assumes "update_primary txt t0 t1 s = Done s'"
    and "search_amperage txt = Some g"
    and "py_int g = Inr amp"
  shows "amperage s' = (if amp > 2 ^ 63 then amp - 2 ^ 64 else amp)"
proof -
  from assms(1) obtain a1 a2 a3 a4 a5 a6 a7 a8 a9 a10 a11 a12 where
    c: "parse_source txt s = Done a1" "parse_percent txt a1 = Done a2"
       "parse_status txt a2 = Done a3" "parse_time txt a3 = Done a4"
       "parse_temperature txt a4 = Done a5" "parse_voltage txt a5 = Done a6"
       "parse_amperage txt a6 = Done a7" "update_power a7 = Done a8"
       "parse_cycle_count txt a8 = Done a9" "parse_design_capacity txt a9 = Done a10"
       "parse_raw_max_capacity txt a10 = Done a11" "parse_adapter txt a11 = Done a12"
       "update_latency t0 t1 a12 = Done s'"
    unfolding update_primary_Done_iff by blast
  have "amperage s' = amperage a7"
    using chain_fields [OF c] by simp
  also have "\<dots> = signed_amperage amp"
    using c(7) assms(2,3) by (rule parse_amperage_Done)
  finally show ?thesis
    by (simp add: signed_amperage_def)
qed

text \<open>
  C3 on the raw value \<open>2 ^ 63\<close>, the smallest one that encodes a negative amperage: the
  claim stores \<open>2 ^ 63 - 2 ^ 64\<close>; the comparison \<^verbatim>\<open>amp > 2**63\<close> is strict, so the pass
  stores \<open>2 ^ 63\<close> unchanged. (Above \<open>2 ^ 63\<close> and below it the stored value is the one
  the claim gives, by the lemma before.)
\<close>

theorem amperage_at_two_pow_63:
  "(9223372036854775808 :: int) = 2 ^ 63 \<and>
   search_amperage ''\"InstantAmperage\" = 9223372036854775808'' = Some ''9223372036854775808'' \<and>
   dec_value ''9223372036854775808'' = 2 ^ 63 \<and>
   amperage (state_of (update_primary ''\"InstantAmperage\" = 9223372036854775808''
     (Fin 0) (Fin 0) PowerData_init)) = 2 ^ 63 \<and>
   amperage (state_of (update_primary ''\"InstantAmperage\" = 9223372036854775808''
     (Fin 0) (Fin 0) PowerData_init)) \<noteq> 2 ^ 63 - 2 ^ 64"
  by (simp add: step_defs match_defs num_defs PowerData_init_def)

section \<open>History buffers\<close>

lemma maxlen_deque_append [simp]: "maxlen (deque_append d x) = maxlen d"
  by (simp add: deque_append_def Let_def)

lemma items_deque_append:
  "items (deque_append d x) =
     (if maxlen d \<le> length (items d) then tl (items d @ [x]) else items d @ [x])"
  by (auto simp add: deque_append_def Let_def)

lemma deque_append_bounded:
  "length (items d) \<le> maxlen d \<Longrightarrow> length (items (deque_append d x)) \<le> maxlen d"
  by (auto simp add: items_deque_append)

lemma foldl_deque_append:
  "length (items d) \<le> maxlen d \<Longrightarrow>
     maxlen (foldl deque_append d xs) = maxlen d \<and>
     items (foldl deque_append d xs) =
       drop (length (items d) + length xs - maxlen d) (items d @ xs)"
proof (induction xs arbitrary: d)
  case Nil
  then show ?case by simp
next
  case (Cons x xs)
  let ?d = "deque_append d x"
  have b: "length (items ?d) \<le> maxlen ?d"
    using Cons.prems by (simp add: deque_append_bounded)
  have ih: "items (foldl deque_append ?d xs) =
      drop (length (items ?d) + length xs - maxlen d) (items ?d @ xs)"
    and m: "maxlen (foldl deque_append ?d xs) = maxlen d"
    using Cons.IH [OF b] by simp_all
  show ?case
  proof (cases "maxlen d \<le> length (items d)")
    case True
    then have full: "length (items d) = maxlen d"
      using Cons.prems by simp
    have t: "items ?d @ xs = tl (items d @ x # xs)"
      using True by (cases "items d") (simp_all add: items_deque_append)
    have l: "length (items ?d) = maxlen d"
      using True full by (simp add: items_deque_append)
    have n: "length (items d) + length (x # xs) - maxlen d = Suc (length xs)"
      using full by simp
    have "items (foldl deque_append ?d xs) = drop (length xs) (tl (items d @ x # xs))"
      using ih by (simp only: t l) simp
    also have "\<dots> = drop (Suc (length xs)) (items d @ x # xs)"
      by (simp only: drop_Suc)
    finally have "items (foldl deque_append d (x # xs)) =
        drop (length (items d) + length (x # xs) - maxlen d) (items d @ x # xs)"
      by (simp only: n foldl_Cons)
    moreover have "maxlen (foldl deque_append d (x # xs)) = maxlen d"
      using m by simp
    ultimately show ?thesis
      by blast
  next
    case False
    then have "items ?d = items d @ [x]"
      by (simp add: items_deque_append)
    then show ?thesis
      using ih m by simp
  qed
qed

lemma history_of_150:
  assumes "length xs = 150"
  shows "items (foldl deque_append (Deque 100 []) xs) = drop 50 xs \<and>
         length (items (foldl deque_append (Deque 100 []) xs)) = 100"
  using foldl_deque_append [of "Deque 100 []" xs] assms by simp

lemma update_power_Done:
  assumes "update_power a = Done a'"
  shows "power_formula (voltage a) (amperage a) = Inr (power_watts a') \<and>
         power_history a' = deque_append (power_history a) (power_watts a') \<and>
         voltage a' = voltage a \<and> amperage a' = amperage a"
  using assms by (cases "power_formula (voltage a) (amperage a)") (auto simp add: update_power_def)

lemma power_history_appended:
  assumes "update_primary txt t0 t1 s = Done s'"
  shows "power_history s' = deque_append (power_history s) (power_watts s')"
proof -
  from assms(1) obtain a1 a2 a3 a4 a5 a6 a7 a8 a9 a10 a11 a12 where
    c: "parse_source txt s = Done a1" "parse_percent txt a1 = Done a2"
       "parse_status txt a2 = Done a3" "parse_time txt a3 = Done a4"
       "parse_temperature txt a4 = Done a5" "parse_voltage txt a5 = Done a6"
       "parse_amperage txt a6 = Done a7" "update_power a7 = Done a8"
       "parse_cycle_count txt a8 = Done a9" "parse_design_capacity txt a9 = Done a10"
       "parse_raw_max_capacity txt a10 = Done a11" "parse_adapter txt a11 = Done a12"
       "update_latency t0 t1 a12 = Done s'"
    unfolding update_primary_Done_iff by blast
  show ?thesis
    using chain_fields [OF c] update_power_Done [OF c(8)] by simp
qed

lemma temp_history_unchanged:
  "temp_history (state_of (update_primary txt t0 t1 s)) = temp_history s"
  using untouched [of F_temp_history "txt" s t0 t1]
  by (simp add: touched_def touched_adapter_def in_found in_case_option same_field_def)

text \<open>
  C5 on a text with a temperature: the pass stores the new temperature (26.9 degrees for
  the raw 3000) and appends the power draw to its history, and the temperature history
  is still empty. No pass appends to it (lemma \<open>temp_history_unchanged\<close>), while the
  power history gets one sample in every completed pass and keeps the last 100 (lemmas
  \<open>power_history_appended\<close>, \<open>foldl_deque_append\<close> and \<open>history_of_150\<close>).
\<close>

theorem temperature_not_in_history:
  "temperature (state_of (update_primary ''\"Temperature\" = 3000'' (Fin 0) (Fin 0)
     PowerData_init)) = PFloat (Fin (3785838436758323 / 140737488355328)) \<and>
   power_history (state_of (update_primary ''\"Temperature\" = 3000'' (Fin 0) (Fin 0)
     PowerData_init)) = Deque 100 [PFloat (Fin 0)] \<and>
   temp_history (state_of (update_primary ''\"Temperature\" = 3000'' (Fin 0) (Fin 0)
     PowerData_init)) = Deque 100 []"
  by (simp add: step_defs match_defs num_defs PowerData_init_def)

section \<open>Power draw\<close>

lemma pow2_pos: "0 < pow2 e"
  by (simp add: pow2_def)

lemma round_half_even_nonneg: "0 \<le> q \<Longrightarrow> 0 \<le> round_half_even q"
  by (simp add: round_half_even_def Let_def)

lemma fl_nonneg:
  assumes "0 \<le> q"
  shows "fl q = PInf \<or> (\<exists>r. 0 \<le> r \<and> fl q = Fin r)"
proof (cases "q = 0")
  case True
  then show ?thesis by (simp add: fl_def)
next
  case False
  with assms have pos: "0 < q" by simp
  define e where "e = max (ilog2 \<bar>q\<bar> - 52) (- 1074)"
  define r where "r = of_int (round_half_even (\<bar>q\<bar> / pow2 e)) * pow2 e"
  have "0 \<le> \<bar>q\<bar> / pow2 e"
    using pow2_pos [of e] by simp
  then have "0 \<le> round_half_even (\<bar>q\<bar> / pow2 e)"
    by (rule round_half_even_nonneg)
  then have "0 \<le> r"
    using pow2_pos [of e] by (simp add: r_def)
  moreover have "fl q = (if pow2 1024 \<le> r then PInf else Fin r)"
    using pos by (simp add: fl_def Let_def e_def r_def)
  ultimately show ?thesis
    by auto
qed

lemma float_of_int_nonneg:
  "0 \<le> i \<Longrightarrow> float_of_int i = Inr u \<Longrightarrow> \<exists>r. 0 \<le> r \<and> u = Fin r"
  using fl_nonneg [of "of_int i"]
  by (auto simp add: float_of_int_def split: pyfloat.splits)

lemma int_truediv_nonneg:
  "0 \<le> a \<Longrightarrow> 0 < b \<Longrightarrow> int_truediv a b = Inr u \<Longrightarrow> \<exists>r. 0 \<le> r \<and> u = Fin r"
  using fl_nonneg [of "of_int a / of_int b"]
  by (auto simp add: int_truediv_def split: pyfloat.splits if_splits)

lemma float_of_int_1000: "float_of_int 1000 = Inr (Fin 1000)"
  by (simp add: num_defs)

lemma float_of_int_100: "float_of_int 100 = Inr (Fin 100)"
  by (simp add: num_defs)

lemma num_mul_nonneg:
  assumes "finite_nonneg v" and "0 \<le> n" and "num_mul v (PInt n) = Inr p"
  shows "nonneg_num p"
proof (cases v)
  case (PInt a)
  then show ?thesis
    using assms by (auto simp add: num_mul_def finite_nonneg_def nonneg_num_def)
next
  case (PFloat u)
  then obtain a where u: "u = Fin a" and a: "0 \<le> a"
    using assms(1) by (cases u) (simp_all add: finite_nonneg_def)
  from assms(3) PFloat obtain w where w: "float_of_int n = Inr w" and p: "p = PFloat (float_mul u w)"
    by (cases "float_of_int n") (auto simp add: num_mul_def)
  from float_of_int_nonneg [OF assms(2) w] obtain r where r: "0 \<le> r" "w = Fin r"
    by blast
  have "0 \<le> a * r"
    using a r(1) by simp
  then show ?thesis
    using fl_nonneg [of "a * r"] p u r(2) by (auto simp add: float_mul_def nonneg_num_def)
qed

lemma num_truediv_1000_nonneg:
  assumes "nonneg_num p" and "num_truediv p (PInt 1000) = Inr q"
  shows "nonneg_num q"
proof (cases p)
  case (PInt a)
  then have "0 \<le> a"
    using assms(1) by (simp add: nonneg_num_def)
  then show ?thesis
    using assms(2) PInt int_truediv_nonneg [of a 1000]
    by (cases "int_truediv a 1000") (auto simp add: num_truediv_def nonneg_num_def)
next
  case (PFloat u)
  show ?thesis
  proof (cases u)
    case (Fin a)
    then have "0 \<le> a / 1000"
      using assms(1) PFloat by (simp add: nonneg_num_def)
    then show ?thesis
      using fl_nonneg [of "a / 1000"] assms(2) PFloat Fin
      by (auto simp add: num_truediv_def float_of_int_1000 float_truediv_def nonneg_num_def)
  next
    case PInf
    then show ?thesis
      using assms(2) PFloat
      by (auto simp add: num_truediv_def float_of_int_1000 float_truediv_def float_sgn_def
            nonneg_num_def)
  next
    case NInf
    then show ?thesis
      using assms(1) PFloat by (simp add: nonneg_num_def)
  next
    case NaN
    then show ?thesis
      using assms(1) PFloat by (simp add: nonneg_num_def)
  qed
qed

lemma py_round_nonneg:
  assumes "nonneg_num q" and "py_round q n = Inr w"
  shows "nonneg_num w"
proof (cases q)
  case (PInt a)
  then show ?thesis
    using assms by (auto simp add: py_round_def)
next
  case (PFloat u)
  show ?thesis
  proof (cases u)
    case (Fin a)
    then have "0 \<le> a * 10 ^ n"
      using assms(1) PFloat by (simp add: nonneg_num_def)
    then have "0 \<le> round_half_even (a * 10 ^ n)"
      by (rule round_half_even_nonneg)
    then have "0 \<le> real_of_int (round_half_even (a * 10 ^ n)) / 10 ^ n"
      by simp
    then show ?thesis
      using fl_nonneg [of "real_of_int (round_half_even (a * 10 ^ n)) / 10 ^ n"] assms(2) PFloat Fin
      by (auto simp add: py_round_def float_round_def nonneg_num_def split: pyfloat.splits)
  next
    case PInf
    then show ?thesis
      using assms(2) PFloat by (auto simp add: py_round_def float_round_def nonneg_num_def)
  next
    case NInf
    then show ?thesis
      using assms(1) PFloat by (simp add: nonneg_num_def)
  next
    case NaN
    then show ?thesis
      using assms(1) PFloat by (simp add: nonneg_num_def)
  qed
qed

lemma power_formula_nonneg:
  assumes "finite_nonneg v" and "power_formula v a = Inr w"
  shows "nonneg_num w"
proof -
  from assms(2) obtain p q where p: "num_mul v (PInt \<bar>a\<bar>) = Inr p"
    and q: "num_truediv p (PInt 1000) = Inr q" and w: "py_round q 2 = Inr w"
    by (auto simp add: power_formula_def bind_exc_def split: sum.splits)
  have "nonneg_num p"
    using assms(1) _ p by (rule num_mul_nonneg) simp
  then have "nonneg_num q"
    using q by (rule num_truediv_1000_nonneg)
  then show ?thesis
    using w by (rule py_round_nonneg)
qed

lemma parse_voltage_nonneg:
  assumes "parse_voltage txt a = Done a'" and "finite_nonneg (voltage a)"
  shows "finite_nonneg (voltage a')"
proof (cases "re_search (match_uint ''\"Voltage\"'') txt")
  case None
  then show ?thesis
    using assms by (simp add: parse_voltage_def)
next
  case (Some g)
  from assms(1) Some obtain v u where v: "py_int g = Inr v"
    and u: "int_truediv v 1000 = Inr u" and a': "voltage a' = PFloat u"
    by (auto simp add: parse_voltage_def num_truediv_def assign_def bind_exc_def
          split: sum.splits)
  have "0 \<le> v"
    using search_uint_digits [OF Some] v by (auto dest: py_int_digits)
  then obtain r where "0 \<le> r" "u = Fin r"
    using int_truediv_nonneg [of v 1000 u] u by auto
  then show ?thesis
    using a' by (simp add: finite_nonneg_def)
qed

lemma bit_length_nonneg: "0 \<le> bit_length n"
  by (induction n rule: bit_length.induct) (simp add: bit_length.simps)

lemma bit_length_lower:
  "0 < n \<Longrightarrow> 2 ^ nat (bit_length n - 1) \<le> n"
proof (induction n rule: bit_length.induct)
  case (1 n)
  show ?case
  proof (cases "n div 2 = 0")
    case True
    with "1.prems" have "n = 1"
      by (simp add: div_eq_0_iff)
    then show ?thesis
      by (simp add: bit_length.simps)
  next
    case False
    with "1.prems" have h: "0 < n div 2"
      by (simp add: div_eq_0_iff)
    have ih: "2 ^ nat (bit_length (n div 2) - 1) \<le> n div 2"
      using "1.IH" "1.prems" h by simp
    have b: "1 \<le> bit_length (n div 2)"
      using h bit_length_nonneg [of "n div 2 div 2"] by (subst bit_length.simps) simp
    have "bit_length n - 1 = bit_length (n div 2)"
      using "1.prems" by (subst bit_length.simps) simp
    then have "(2 :: int) ^ nat (bit_length n - 1) = 2 * 2 ^ nat (bit_length (n div 2) - 1)"
      using b by (simp add: power_Suc [symmetric] Suc_nat_eq_nat_zadd1 del: power_Suc)
    also have "\<dots> \<le> 2 * (n div 2)"
      using ih by simp
    also have "\<dots> \<le> n"
      by simp
    finally show ?thesis .
  qed
qed

lemma bit_length_upper: "2 ^ k \<le> n \<Longrightarrow> int k < bit_length n"
proof (induction k arbitrary: n)
  case 0
  then show ?case
    using bit_length_nonneg [of "n div 2"] by (subst bit_length.simps) simp
next
  case (Suc k)
  then have "2 ^ k \<le> n div 2"
    by simp
  then have "int k < bit_length (n div 2)"
    by (rule Suc.IH)
  moreover have "0 < n"
    using Suc.prems by (smt (verit) zero_less_power)
  ultimately show ?case
    by (subst bit_length.simps) simp
qed

lemma round_half_even_ge_floor: "\<lfloor>q\<rfloor> \<le> round_half_even q"
  by (simp add: round_half_even_def Let_def)

lemma float_of_int_overflow:
  assumes "2 ^ 1024 \<le> i"
  shows "float_of_int i = Inl OverflowError"
proof -
  define L where "L = bit_length i - 1"
  define e where "e = L - 52"
  have ipos: "0 < i"
    using assms by (smt (verit) zero_less_power)
  have "int 1024 < bit_length i"
    using assms by (intro bit_length_upper) simp
  then have L: "1024 \<le> L"
    by (simp add: L_def)
  then have e: "0 \<le> e" "nat L = nat e + 52"
    by (simp_all add: e_def)
  have q1: "(1 :: real) \<le> of_int i"
    using ipos by simp
  have il: "ilog2 (real_of_int i) = L"
    using q1 by (simp add: ilog2_def L_def)
  have mx: "max (L - 52) (- 1074) = e"
    using e(1) by (simp add: e_def)
  have low: "(2 :: int) ^ nat L \<le> i"
    using bit_length_lower [OF ipos] by (simp add: L_def)
  have p: "pow2 e = 2 ^ nat e"
    using e(1) by (simp add: pow2_def)
  have "(2 :: real) ^ 52 * 2 ^ nat e = 2 ^ nat L"
    by (simp add: e(2) power_add)
  also have "\<dots> \<le> of_int i"
    using low by (metis of_int_le_iff of_int_numeral of_int_power)
  finally have "(2 :: real) ^ 52 \<le> of_int i / 2 ^ nat e"
    by (simp add: pos_le_divide_eq)
  then have "(2 :: int) ^ 52 \<le> \<lfloor>real_of_int i / 2 ^ nat e\<rfloor>"
    by (simp add: le_floor_iff)
  then have r52: "(2 :: int) ^ 52 \<le> round_half_even (real_of_int i / 2 ^ nat e)"
    using round_half_even_ge_floor [of "real_of_int i / 2 ^ nat e"] by linarith
  have "(2 :: real) ^ 1024 \<le> 2 ^ nat L"
    using L by (intro power_increasing) simp_all
  also have "\<dots> = 2 ^ 52 * 2 ^ nat e"
    by (simp add: e(2) power_add)
  also have "\<dots> \<le> real_of_int (round_half_even (real_of_int i / 2 ^ nat e)) * 2 ^ nat e"
    using r52 by (intro mult_right_mono) (simp_all add: numeral_power_le_of_int_cancel_iff)
  finally have F: "(2 :: real) ^ 1024 \<le>
      real_of_int (round_half_even (real_of_int i / 2 ^ nat e)) * 2 ^ nat e" .
  have p1024: "pow2 1024 = 2 ^ 1024"
    by (simp add: pow2_def)
  have ab: "\<bar>real_of_int i\<bar> = real_of_int i"
    using ipos by simp
  have big: "pow2 1024 \<le>
      real_of_int (round_half_even (real_of_int i / pow2 e)) * pow2 e"
    using F by (simp only: p p1024)
  have "fl (of_int i) = PInf"
    using ipos big by (simp add: fl_def Let_def ab il mx)
  then show ?thesis
    by (simp add: float_of_int_def)
qed

lemma re_search_digits:
  assumes "list_all is_digit ds" and "m [] = None"
    and "\<And>c r. is_digit c \<Longrightarrow> m (c # r) = None"
  shows "re_search m ds = None"
  using assms(1) by (induction ds) (simp_all add: assms(2,3))

lemma digit_not_quote: "is_digit c \<Longrightarrow> CHR 0x22 \<noteq> c"
  by (auto simp add: is_digit_def)

lemma digit_not_space: "is_digit c \<Longrightarrow> \<not> is_space c"
  by (auto simp add: is_digit_def is_space_def Let_def)

lemma digit_not_minus: "is_digit c \<Longrightarrow> c \<noteq> CHR ''-''"
  by (auto simp add: is_digit_def)

lemma search_uint_in_digits:
  "list_all is_digit ds \<Longrightarrow> re_search (match_uint (CHR 0x22 # k)) ds = None"
  by (rule re_search_digits) (auto simp add: match_uint_def lit_def dest: digit_not_quote)

lemma search_sint_in_digits:
  "list_all is_digit ds \<Longrightarrow> re_search (match_sint (CHR 0x22 # k)) ds = None"
  by (rule re_search_digits) (auto simp add: match_sint_def lit_def dest: digit_not_quote)

lemma search_adapter_in_digits:
  "list_all is_digit ds \<Longrightarrow> re_search match_adapter_details ds = None"
  by (rule re_search_digits)
     (auto simp add: match_adapter_details_def lit_def dest: digit_not_quote)

lemma contains_in_digits:
  "list_all is_digit ds \<Longrightarrow> contains (CHR 0x22 # k) ds = False"
  by (induction ds) (auto dest: digit_not_quote)

lemma takeWhile_digits: "list_all is_digit ds \<Longrightarrow> takeWhile is_digit ds = ds"
  by (simp add: list_all_iff)

lemma aborted_pass:
  assumes d: "is_digit d" and ds: "list_all is_digit ds"
    and v: "py_int (d # ds) = Inr v"
    and big: "2 ^ 1024 \<le> \<bar>signed_amperage v\<bar>"
  shows "update_primary (''\"Voltage\" = 5000 \"InstantAmperage\" = '' @ d # ds) t0 t1 s =
           Raised OverflowError
             (s\<lparr>power_source := ''Battery'', charger_connected := False,
                charging_status := ''Discharging'', voltage := PFloat (Fin 5),
                amperage := signed_amperage v\<rparr>)"
proof -
  define T where "T = ''\"Voltage\" = 5000 \"InstantAmperage\" = '' @ d # ds"
  note q = digit_not_quote [OF d] digit_not_quote [OF d, symmetric]
  note scan = search_uint_in_digits [OF ds] search_sint_in_digits [OF ds]
    search_adapter_in_digits [OF ds] contains_in_digits [OF ds]
  have e: "ext_conn T = False"
    "contains ''\"IsCharging\" = Yes'' T = False"
    "contains ''\"FullyCharged\" = Yes'' T = False"
    unfolding T_def ext_conn_def by (simp_all add: q scan)
  have u: "re_search (match_uint ''\"CurrentCapacity\"'') T = None"
    "re_search (match_uint ''\"MaxCapacity\"'') T = None"
    "re_search (match_uint ''\"TimeRemaining\"'') T = None"
    "re_search (match_uint ''\"Temperature\"'') T = None"
    "re_search (match_uint ''\"CycleCount\"'') T = None"
    "re_search (match_uint ''\"DesignCapacity\"'') T = None"
    "re_search (match_uint ''\"AppleRawMaxCapacity\"'') T = None"
    "re_search match_adapter_details T = None"
    unfolding T_def
    by (simp_all add: match_uint_def match_adapter_details_def lit_def opt_lit_def q scan)
  have vo: "re_search (match_uint ''\"Voltage\"'') T = Some ''5000''"
    unfolding T_def
    by (simp add: match_uint_def lit_def kv_tail_def digits1_def is_space_def is_digit_def)
  have sp: "is_space CHR '' ''" "\<not> is_space CHR ''=''"
    by (simp_all add: is_space_def)
  have am: "search_amperage T = Some (d # ds)"
    unfolding T_def search_amperage_def
    by (simp add: match_sint_def lit_def kv_tail_def sdigits1_def digits1_def sp
          digit_not_space [OF d] digit_not_minus [OF d] d takeWhile_digits [OF ds])
  have v5: "py_int ''5000'' = Inr 5000"
    by (simp add: num_defs is_digit_def)
  have d5: "num_truediv (PInt 5000) (PInt 1000) = Inr (PFloat (Fin 5))"
    by (simp add: num_defs)
  have ov: "power_formula (PFloat (Fin 5)) (signed_amperage v) = Inl OverflowError"
    using float_of_int_overflow [OF big] by (simp add: power_formula_def num_mul_def)
  have "update_primary T t0 t1 s =
      Raised OverflowError
        (s\<lparr>power_source := ''Battery'', charger_connected := False,
           charging_status := ''Discharging'', voltage := PFloat (Fin 5),
           amperage := signed_amperage v\<rparr>)"
    by (simp add: update_primary_def parse_source_def parse_percent_def parse_status_def
          parse_time_def parse_temperature_def parse_voltage_def parse_amperage_def
          update_power_def e u vo am v v5 d5 ov)
  then show ?thesis
    by (simp only: T_def)
qed

lemma power_formula_zero:
  assumes "finite_nonneg v"
  shows "power_formula v 0 = Inr (PFloat (Fin 0))"
proof (cases v)
  case (PInt n)
  then show ?thesis
    by (simp add: power_formula_def num_defs)
next
  case (PFloat u)
  then obtain x where "u = Fin x"
    using assms by (cases u) (simp_all add: finite_nonneg_def)
  with PFloat show ?thesis
    by (simp add: power_formula_def num_defs)
qed

lemma power_formula_overflow:
  assumes "2 ^ 1024 \<le> \<bar>a\<bar>"
  shows "power_formula (PFloat u) a = Inl OverflowError"
  using float_of_int_overflow [OF assms] by (simp add: power_formula_def num_mul_def)

text \<open>
  C7, as stated: after every collector update the power draw is the rounded product of
  the voltage and amperage that the snapshot holds. A pass whose amperage is too large
  to convert to a float raises \<^verbatim>\<open>OverflowError\<close> in the power statement, after the
  voltage and the amperage have been assigned: the snapshot then holds the new voltage
  5.0 and the new amperage next to the power draw 6.0 of the pass before.
\<close>

theorem power_draw_stale_after_abort:
  "power_watts (state_of (update_primary ''\"Voltage\" = 12000 \"InstantAmperage\" = -500''
       (Fin 0) (Fin 0) PowerData_init)) = PFloat (Fin 6) \<and>
   update_primary
     ''\"Voltage\" = 5000 \"InstantAmperage\" = 1000000000000000000000000000000000000000000000000000000000000000000000000000000000000000000000000000000000000000000000000000000000000000000000000000000000000000000000000000000000000000000000000000000000000000000000000000000000000000000000000000000000000000000000000000000000000000000000000000000000000000000000''
     (Fin 0) (Fin 0)
     (state_of (update_primary ''\"Voltage\" = 12000 \"InstantAmperage\" = -500''
       (Fin 0) (Fin 0) PowerData_init)) =
   Raised OverflowError (state_of (update_primary
     ''\"Voltage\" = 5000 \"InstantAmperage\" = 1000000000000000000000000000000000000000000000000000000000000000000000000000000000000000000000000000000000000000000000000000000000000000000000000000000000000000000000000000000000000000000000000000000000000000000000000000000000000000000000000000000000000000000000000000000000000000000000000000000000000000000000''
     (Fin 0) (Fin 0)
     (state_of (update_primary ''\"Voltage\" = 12000 \"InstantAmperage\" = -500''
       (Fin 0) (Fin 0) PowerData_init)))) \<and>
   voltage (state_of (update_primary
     ''\"Voltage\" = 5000 \"InstantAmperage\" = 1000000000000000000000000000000000000000000000000000000000000000000000000000000000000000000000000000000000000000000000000000000000000000000000000000000000000000000000000000000000000000000000000000000000000000000000000000000000000000000000000000000000000000000000000000000000000000000000000000000000000000000000''
     (Fin 0) (Fin 0)
     (state_of (update_primary ''\"Voltage\" = 12000 \"InstantAmperage\" = -500''
       (Fin 0) (Fin 0) PowerData_init)))) = PFloat (Fin 5) \<and>
   amperage (state_of (update_primary
     ''\"Voltage\" = 5000 \"InstantAmperage\" = 1000000000000000000000000000000000000000000000000000000000000000000000000000000000000000000000000000000000000000000000000000000000000000000000000000000000000000000000000000000000000000000000000000000000000000000000000000000000000000000000000000000000000000000000000000000000000000000000000000000000000000000000''
     (Fin 0) (Fin 0)
     (state_of (update_primary ''\"Voltage\" = 12000 \"InstantAmperage\" = -500''
       (Fin 0) (Fin 0) PowerData_init)))) = 10 ^ 309 - 2 ^ 64 \<and>
   power_watts (state_of (update_primary
     ''\"Voltage\" = 5000 \"InstantAmperage\" = 1000000000000000000000000000000000000000000000000000000000000000000000000000000000000000000000000000000000000000000000000000000000000000000000000000000000000000000000000000000000000000000000000000000000000000000000000000000000000000000000000000000000000000000000000000000000000000000000000000000000000000000000''
     (Fin 0) (Fin 0)
     (state_of (update_primary ''\"Voltage\" = 12000 \"InstantAmperage\" = -500''
       (Fin 0) (Fin 0) PowerData_init)))) = PFloat (Fin 6) \<and>
   power_formula (PFloat (Fin 5)) (10 ^ 309 - 2 ^ 64) = Inl OverflowError"
proof -
  have w: "power_watts (state_of (update_primary ''\"Voltage\" = 12000 \"InstantAmperage\" = -500''
       (Fin 0) (Fin 0) PowerData_init)) = PFloat (Fin 6)"
    by (simp add: step_defs match_defs num_defs PowerData_init_def)
  have t: "''\"Voltage\" = 5000 \"InstantAmperage\" = 1000000000000000000000000000000000000000000000000000000000000000000000000000000000000000000000000000000000000000000000000000000000000000000000000000000000000000000000000000000000000000000000000000000000000000000000000000000000000000000000000000000000000000000000000000000000000000000000000000000000000000000000'' =
      ''\"Voltage\" = 5000 \"InstantAmperage\" = '' @ CHR ''1'' # ''000000000000000000000000000000000000000000000000000000000000000000000000000000000000000000000000000000000000000000000000000000000000000000000000000000000000000000000000000000000000000000000000000000000000000000000000000000000000000000000000000000000000000000000000000000000000000000000000000000000000000000000''"
    by simp
  have d: "is_digit CHR ''1''"
    by (simp add: is_digit_def)
  have ds: "list_all is_digit ''000000000000000000000000000000000000000000000000000000000000000000000000000000000000000000000000000000000000000000000000000000000000000000000000000000000000000000000000000000000000000000000000000000000000000000000000000000000000000000000000000000000000000000000000000000000000000000000000000000000000000000000''"
    by (simp add: is_digit_def)
  define A :: int where "A = 10 ^ 309"
  have "py_int (CHR ''1'' # ''000000000000000000000000000000000000000000000000000000000000000000000000000000000000000000000000000000000000000000000000000000000000000000000000000000000000000000000000000000000000000000000000000000000000000000000000000000000000000000000000000000000000000000000000000000000000000000000000000000000000000000000'') = Inr (dec_value (CHR ''1'' # ''000000000000000000000000000000000000000000000000000000000000000000000000000000000000000000000000000000000000000000000000000000000000000000000000000000000000000000000000000000000000000000000000000000000000000000000000000000000000000000000000000000000000000000000000000000000000000000000000000000000000000000000''))"
    using d ds by (intro py_int_short) simp_all
  moreover have "dec_value (CHR ''1'' # ''000000000000000000000000000000000000000000000000000000000000000000000000000000000000000000000000000000000000000000000000000000000000000000000000000000000000000000000000000000000000000000000000000000000000000000000000000000000000000000000000000000000000000000000000000000000000000000000000000000000000000000000'') = A"
    by (simp add: dec_value_def digit_val_def A_def)
  ultimately have v: "py_int (CHR ''1'' # ''000000000000000000000000000000000000000000000000000000000000000000000000000000000000000000000000000000000000000000000000000000000000000000000000000000000000000000000000000000000000000000000000000000000000000000000000000000000000000000000000000000000000000000000000000000000000000000000000000000000000000000000'') = Inr A"
    by simp
  have a: "signed_amperage A = A - 2 ^ 64"
    by (simp add: signed_amperage_def A_def)
  have big: "2 ^ 1024 \<le> \<bar>signed_amperage A\<bar>"
    unfolding a by (simp add: A_def)
  have o: "power_formula (PFloat (Fin 5)) (A - 2 ^ 64) = Inl OverflowError"
    using big unfolding a by (rule power_formula_overflow)
  show ?thesis
    unfolding A_def [symmetric] t aborted_pass [OF d ds v big] using o by (simp add: w a)
qed

text \<open>
  C7, amended: after every collector update that runs to completion, the power draw of
  the snapshot is \<^verbatim>\<open>round(voltage * abs(amperage) / 1000, 2)\<close> of the voltage and
  amperage that the snapshot holds then: the product of the voltage and the absolute
  amperage, divided by 1000, rounded to 2 decimals. It is not negative (as long as the
  voltage was finite and not negative before, which holds from the constructor on).
  Voltage 12.0 with amperage -500 gives 6.0, and amperage 0 gives 0.0.
\<close>

theorem power_draw_recomputed:
  assumes "update_primary txt t0 t1 s = Done s'"
  shows "(\<exists>p q. num_mul (voltage s') (PInt \<bar>amperage s'\<bar>) = Inr p \<and>
                num_truediv p (PInt 1000) = Inr q \<and>
                py_round q 2 = Inr (power_watts s')) \<and>
         (finite_nonneg (voltage s) \<longrightarrow>
            finite_nonneg (voltage s') \<and> nonneg_num (power_watts s')) \<and>
         (voltage s' = PFloat (Fin 12) \<and> amperage s' = - 500 \<longrightarrow>
            power_watts s' = PFloat (Fin 6)) \<and>
         (finite_nonneg (voltage s') \<and> amperage s' = 0 \<longrightarrow>
            power_watts s' = PFloat (Fin 0))"
proof -
  from assms(1) obtain a1 a2 a3 a4 a5 a6 a7 a8 a9 a10 a11 a12 where
    c: "parse_source txt s = Done a1" "parse_percent txt a1 = Done a2"
       "parse_status txt a2 = Done a3" "parse_time txt a3 = Done a4"
       "parse_temperature txt a4 = Done a5" "parse_voltage txt a5 = Done a6"
       "parse_amperage txt a6 = Done a7" "update_power a7 = Done a8"
       "parse_cycle_count txt a8 = Done a9" "parse_design_capacity txt a9 = Done a10"
       "parse_raw_max_capacity txt a10 = Done a11" "parse_adapter txt a11 = Done a12"
       "update_latency t0 t1 a12 = Done s'"
    unfolding update_primary_Done_iff by blast
  note f = chain_fields [OF c]
  have v: "voltage s' = voltage a7" and a: "amperage s' = amperage a7"
    and w: "power_watts s' = power_watts a8"
    using f by simp_all
  have p: "power_formula (voltage s') (amperage s') = Inr (power_watts s')"
    using update_power_Done [OF c(8)] by (simp add: v a w)
  have one: "\<exists>p q. num_mul (voltage s') (PInt \<bar>amperage s'\<bar>) = Inr p \<and>
      num_truediv p (PInt 1000) = Inr q \<and> py_round q 2 = Inr (power_watts s')"
    using p by (auto simp add: power_formula_def bind_exc_def split: sum.splits)
  have n: "finite_nonneg (voltage s') \<and> nonneg_num (power_watts s')" if "finite_nonneg (voltage s)"
  proof -
    have "finite_nonneg (voltage a5)"
      using that f by simp
    then have "finite_nonneg (voltage a6)"
      using c(6) by (rule parse_voltage_nonneg [rotated])
    then have "finite_nonneg (voltage s')"
      using f by simp
    then show ?thesis
      using p by (auto intro: power_formula_nonneg)
  qed
  have e1: "power_watts s' = PFloat (Fin 6)"
    if "voltage s' = PFloat (Fin 12) \<and> amperage s' = - 500"
  proof -
    have "power_formula (PFloat (Fin 12)) (- 500) = Inr (PFloat (Fin 6))"
      by (simp add: power_formula_def num_defs)
    then show ?thesis
      using p that by simp
  qed
  have e2: "power_watts s' = PFloat (Fin 0)"
    if "finite_nonneg (voltage s') \<and> amperage s' = 0"
    using p that power_formula_zero [of "voltage s'"] by simp
  show ?thesis
    using one n e1 e2 by blast
qed

theorem power_draw_recomputed_witness:
  "finite_nonneg (voltage PowerData_init) \<and>
   voltage (state_of (update_primary ''\"Voltage\" = 12000 \"InstantAmperage\" = -500''
       (Fin 0) (Fin 0) PowerData_init)) = PFloat (Fin 12) \<and>
   amperage (state_of (update_primary ''\"Voltage\" = 12000 \"InstantAmperage\" = -500''
       (Fin 0) (Fin 0) PowerData_init)) = - 500 \<and>
   power_watts (state_of (update_primary ''\"Voltage\" = 12000 \"InstantAmperage\" = -500''
       (Fin 0) (Fin 0) PowerData_init)) = PFloat (Fin 6) \<and>
   nonneg_num (power_watts (state_of (update_primary ''\"Voltage\" = 12000 \"InstantAmperage\" = -500''
       (Fin 0) (Fin 0) PowerData_init)))"
proof -
  obtain s1 where d: "update_primary ''\"Voltage\" = 12000 \"InstantAmperage\" = -500''
      (Fin 0) (Fin 0) PowerData_init = Done s1"
    by (simp add: step_defs match_defs num_defs PowerData_init_def)
  have i: "finite_nonneg (voltage PowerData_init)"
    by (simp add: PowerData_init_def finite_nonneg_def)
  have v: "voltage (state_of (update_primary ''\"Voltage\" = 12000 \"InstantAmperage\" = -500''
       (Fin 0) (Fin 0) PowerData_init)) = PFloat (Fin 12)"
    and a: "amperage (state_of (update_primary ''\"Voltage\" = 12000 \"InstantAmperage\" = -500''
       (Fin 0) (Fin 0) PowerData_init)) = - 500"
    by (simp_all add: step_defs match_defs num_defs PowerData_init_def)
  show ?thesis
    using power_draw_recomputed [OF d] i v a by (simp add: d nonneg_num_def)
qed

section \<open>Health percent\<close>

lemma and_then_Raised_iff:
  "and_then r f = Raised e z \<longleftrightarrow> r = Raised e z \<or> (\<exists>a. r = Done a \<and> f a = Raised e z)"
  by (cases r) auto

lemma assign_Raised: "assign s rhs upd = Raised e z \<longleftrightarrow> rhs = Inl e \<and> z = s"
  by (cases rhs) auto

lemma bind_exc_Inl: "bind_exc r f = Inl e \<longleftrightarrow> r = Inl e \<or> (\<exists>v. r = Inr v \<and> f v = Inl e)"
  by (cases r) auto

lemma py_int_raises: "py_int g = Inl e \<Longrightarrow> e = ValueError"
  by (auto simp add: py_int_def Let_def split: if_splits)

lemma float_of_int_raises: "float_of_int i = Inl e \<Longrightarrow> e = OverflowError"
  by (auto simp add: float_of_int_def split: pyfloat.splits)

lemma int_truediv_raises: "int_truediv a b = Inl e \<Longrightarrow> b \<noteq> 0 \<Longrightarrow> e = OverflowError"
  by (auto simp add: int_truediv_def split: pyfloat.splits if_splits)

lemma float_truediv_raises: "b \<noteq> 0 \<Longrightarrow> float_truediv u (Fin b) \<noteq> Inl e"
  by (auto simp add: float_truediv_def split: pyfloat.splits)

lemma float_round_raises: "float_round u n = Inl e \<Longrightarrow> e = OverflowError"
  by (auto simp add: float_round_def split: pyfloat.splits)

lemma py_round_raises: "py_round x n = Inl e \<Longrightarrow> e = OverflowError"
  by (cases x) (auto simp add: py_round_def bind_exc_Inl dest: float_round_raises)

lemma num_mul_raises: "num_mul x y = Inl e \<Longrightarrow> e = OverflowError"
  by (cases x; cases y) (auto simp add: num_mul_def bind_exc_Inl dest: float_of_int_raises)

lemma num_sub_raises: "num_sub x y = Inl e \<Longrightarrow> e = OverflowError"
  by (cases x; cases y) (auto simp add: num_sub_def bind_exc_Inl dest: float_of_int_raises)

lemma int_div_raises: "num_truediv (PInt a) (PInt b) = Inl e \<Longrightarrow> b \<noteq> 0 \<Longrightarrow> e = OverflowError"
  by (auto simp add: num_truediv_def bind_exc_Inl dest: int_truediv_raises)

lemma div_1000_raises: "num_truediv x (PInt 1000) = Inl e \<Longrightarrow> e = OverflowError"
  by (cases x)
     (auto simp add: num_truediv_def bind_exc_Inl float_of_int_1000 float_truediv_raises
           dest: int_truediv_raises)

lemma celsius_raises: "celsius raw = Inl e \<Longrightarrow> e = OverflowError"
  by (auto simp add: celsius_def bind_exc_Inl dest: int_div_raises num_sub_raises py_round_raises)

lemma power_formula_raises: "power_formula v a = Inl e \<Longrightarrow> e = OverflowError"
  by (auto simp add: power_formula_def bind_exc_Inl
           dest: num_mul_raises div_1000_raises py_round_raises)

lemma health_percent_raises: "health_percent c d = Inl e \<Longrightarrow> 0 < d \<Longrightarrow> e = OverflowError"
  by (auto simp add: health_percent_def bind_exc_Inl
           dest: int_div_raises num_mul_raises py_round_raises)

lemma latency_ms_raises: "latency_ms t1 t0 = Inl e \<Longrightarrow> e = OverflowError"
  by (auto simp add: latency_ms_def bind_exc_Inl
           dest: num_sub_raises num_mul_raises py_round_raises)

lemma step_never_raises:
  "parse_source txt a \<noteq> Raised e z"
  "parse_status txt a \<noteq> Raised e z"
  by (simp_all add: parse_source_def parse_status_def Let_def)

lemma step_raises:
  "parse_percent txt a = Raised e z \<Longrightarrow> e = ValueError"
  "parse_time txt a = Raised e z \<Longrightarrow> e = ValueError"
  "parse_temperature txt a = Raised e z \<Longrightarrow> e = ValueError \<or> e = OverflowError"
  "parse_voltage txt a = Raised e z \<Longrightarrow> e = ValueError \<or> e = OverflowError"
  "parse_amperage txt a = Raised e z \<Longrightarrow> e = ValueError"
  "update_power a = Raised e z \<Longrightarrow> e = OverflowError"
  "parse_cycle_count txt a = Raised e z \<Longrightarrow> e = ValueError"
  "parse_design_capacity txt a = Raised e z \<Longrightarrow> e = ValueError"
  "update_latency t0 t1 a = Raised e z \<Longrightarrow> e = OverflowError"
  by (auto simp add: parse_percent_def parse_time_def
        parse_temperature_def parse_voltage_def parse_amperage_def update_power_def
        parse_cycle_count_def parse_design_capacity_def update_latency_def Let_def
        assign_Raised bind_exc_Inl
      split: option.splits
      dest: py_int_raises celsius_raises int_div_raises power_formula_raises latency_ms_raises)

lemma raw_max_raises:
  "parse_raw_max_capacity txt a = Raised e z \<Longrightarrow> e = ValueError \<or> e = OverflowError"
  by (auto simp add: parse_raw_max_capacity_def and_then_Raised_iff assign_Raised
      split: option.splits if_splits dest: py_int_raises health_percent_raises)

lemma adapter_raises:
  "parse_adapter txt a = Raised e z \<Longrightarrow> e = ValueError \<or> e = OverflowError"
  by (auto simp add: parse_adapter_def parse_adapter_voltage_def parse_adapter_current_def
        parse_adapter_watts_def and_then_Raised_iff assign_Raised bind_exc_Inl
      split: option.splits dest: py_int_raises int_div_raises)

lemma update_primary_raises:
  assumes "update_primary txt t0 t1 s = Raised e z"
  shows "e = ValueError \<or> e = OverflowError"
  using assms unfolding update_primary_def and_then_Raised_iff
  by (elim disjE exE conjE)
     (auto dest: step_raises raw_max_raises adapter_raises simp add: step_never_raises)

lemma raw_max_step:
  "design_capacity (state_of (parse_raw_max_capacity txt a)) = design_capacity a \<and>
   (re_search (match_uint ''\"AppleRawMaxCapacity\"'') txt = None \<or> design_capacity a \<le> 0 \<longrightarrow>
      max_capacity_percent (state_of (parse_raw_max_capacity txt a)) = max_capacity_percent a)"
  by (auto simp add: parse_raw_max_capacity_def assign_def split: option.splits sum.splits)

lemma raw_max_Done:
  assumes "parse_raw_max_capacity txt a = Done a'"
    and "re_search (match_uint ''\"AppleRawMaxCapacity\"'') txt = Some g"
    and "py_int g = Inr c"
    and "0 < design_capacity a"
  shows "health_percent c (design_capacity a) = Inr (max_capacity_percent a') \<and>
         current_capacity a' = c"
  using assms
  by (cases "health_percent c (design_capacity a)") (auto simp add: parse_raw_max_capacity_def)

lemma tail_keeps:
  "design_capacity (state_of (and_then (parse_adapter txt a) (update_latency t0 t1))) =
     design_capacity a \<and>
   max_capacity_percent (state_of (and_then (parse_adapter txt a) (update_latency t0 t1))) =
     max_capacity_percent a"
proof -
  have "agree_off
          ((case re_search match_adapter_details txt of
              Some ad \<Rightarrow> touched_adapter ad | None \<Rightarrow> {}) \<union> {F_poll_latency})
          a (state_of (and_then (parse_adapter txt a) (update_latency t0 t1)))"
    by (intro agree_off_and_then parse_adapter_frame update_latency_frame)
  from agree_offD [OF this, of F_design_capacity] agree_offD [OF this, of F_max_capacity_percent]
  show ?thesis
    by (simp add: same_field_def in_case_option touched_adapter_def in_found)
qed

lemma health_tail:
  assumes "X = state_of (and_then (and_then (and_then r (parse_raw_max_capacity txt))
      (parse_adapter txt)) (update_latency t0 t1))"
    and "re_search (match_uint ''\"AppleRawMaxCapacity\"'') txt = None \<or> design_capacity X \<le> 0"
  shows "max_capacity_percent X = max_capacity_percent (state_of r)"
proof (cases r)
  case (Raised e z)
  then show ?thesis
    using assms(1) by simp
next
  case (Done a)
  show ?thesis
  proof (cases "parse_raw_max_capacity txt a")
    case (Raised e z)
    then have "X = z"
      using assms(1) Done by simp
    then show ?thesis
      using raw_max_step [of "txt" a] Raised Done assms(2) by auto
  next
    case inner: (Done b)
    then have X: "X = state_of (and_then (parse_adapter txt b) (update_latency t0 t1))"
      using assms(1) Done by simp
    have "design_capacity X = design_capacity b" "max_capacity_percent X = max_capacity_percent b"
      using tail_keeps [of "txt" b t0 t1] X by simp_all
    then show ?thesis
      using raw_max_step [of "txt" a] inner Done assms(2) by auto
  qed
qed

lemma counters_keep_health:
  "max_capacity_percent (state_of (and_then (and_then (and_then (and_then (and_then (and_then (and_then (and_then (and_then (parse_source txt s)
           (parse_percent txt))
           (parse_status txt))
           (parse_time txt))
           (parse_temperature txt))
           (parse_voltage txt))
           (parse_amperage txt))
           update_power)
           (parse_cycle_count txt))
           (parse_design_capacity txt))) = max_capacity_percent s"
proof -
  have "agree_off
          ({F_power_source, F_charger_connected} \<union>
           (if re_search (match_uint ''\"CurrentCapacity\"'') txt \<noteq> None \<and>
               re_search (match_uint ''\"MaxCapacity\"'') txt \<noteq> None
            then {F_battery_percent} else {}) \<union>
           {F_charging_status} \<union>
           found (re_search (match_uint ''\"TimeRemaining\"'') txt) {F_time_remaining} \<union>
           found (re_search (match_uint ''\"Temperature\"'') txt) {F_temperature} \<union>
           found (re_search (match_uint ''\"Voltage\"'') txt) {F_voltage} \<union>
           found (search_amperage txt) {F_amperage} \<union>
           {F_power_watts, F_power_history} \<union>
           found (re_search (match_uint ''\"CycleCount\"'') txt) {F_cycle_count} \<union>
           found (re_search (match_uint ''\"DesignCapacity\"'') txt) {F_design_capacity})
          s (state_of (and_then (and_then (and_then (and_then (and_then (and_then (and_then (and_then (and_then (parse_source txt s)
           (parse_percent txt))
           (parse_status txt))
           (parse_time txt))
           (parse_temperature txt))
           (parse_voltage txt))
           (parse_amperage txt))
           update_power)
           (parse_cycle_count txt))
           (parse_design_capacity txt)))"
    by (intro agree_off_and_then parse_source_frame parse_percent_frame parse_status_frame
          parse_time_frame parse_temperature_frame parse_voltage_frame parse_amperage_frame
          update_power_frame parse_cycle_count_frame parse_design_capacity_frame)
  from agree_offD [OF this, of F_max_capacity_percent] show ?thesis
    by (simp add: same_field_def in_found)
qed

text \<open>
  C10: the health percent is recomputed only when the text has a raw max-capacity counter
  and the stored design capacity is positive. In every other case the pass leaves the
  previous health percent (also when it is cut short by an exception); no pass raises
  \<^verbatim>\<open>ZeroDivisionError\<close>; and a completed pass that finds the counter \<open>c\<close> with a
  positive design capacity stores \<^verbatim>\<open>round((c / design_capacity) * 100, 1)\<close>.
\<close>

theorem health_percent_guarded:
  assumes "s' = state_of (update_primary txt t0 t1 s)"
  shows "(re_search (match_uint ''\"AppleRawMaxCapacity\"'') txt = None \<or> design_capacity s' \<le> 0 \<longrightarrow>
            max_capacity_percent s' = max_capacity_percent s) \<and>
         (\<forall>z. update_primary txt t0 t1 s \<noteq> Raised ZeroDivisionError z) \<and>
         (\<forall>g c. update_primary txt t0 t1 s = Done s' \<and>
                 re_search (match_uint ''\"AppleRawMaxCapacity\"'') txt = Some g \<and> py_int g = Inr c \<and> 0 < design_capacity s' \<longrightarrow>
                 health_percent c (design_capacity s') = Inr (max_capacity_percent s'))"
proof -
  have X: "s' = state_of (and_then (and_then (and_then (and_then (and_then (and_then (and_then (and_then (and_then (and_then (and_then (and_then (parse_source txt s)
           (parse_percent txt))
           (parse_status txt))
           (parse_time txt))
           (parse_temperature txt))
           (parse_voltage txt))
           (parse_amperage txt))
           update_power)
           (parse_cycle_count txt))
           (parse_design_capacity txt))
      (parse_raw_max_capacity txt)) (parse_adapter txt)) (update_latency t0 t1))"
    using assms by (simp only: update_primary_def)
  have one: "max_capacity_percent s' = max_capacity_percent s"
    if "re_search (match_uint ''\"AppleRawMaxCapacity\"'') txt = None \<or> design_capacity s' \<le> 0"
    using health_tail [OF X that] counters_keep_health [of "txt" s] by simp
  have two: "update_primary txt t0 t1 s \<noteq> Raised ZeroDivisionError z" for z
    using update_primary_raises [of "txt" t0 t1 s ZeroDivisionError z] by auto
  have three: "health_percent c (design_capacity s') = Inr (max_capacity_percent s')"
    if d: "update_primary txt t0 t1 s = Done s'" and g: "re_search (match_uint ''\"AppleRawMaxCapacity\"'') txt = Some g"
      and c: "py_int g = Inr c" and p: "0 < design_capacity s'" for g c
  proof -
    from d obtain a1 a2 a3 a4 a5 a6 a7 a8 a9 a10 a11 a12 where
      ch: "parse_source txt s = Done a1" "parse_percent txt a1 = Done a2"
         "parse_status txt a2 = Done a3" "parse_time txt a3 = Done a4"
         "parse_temperature txt a4 = Done a5" "parse_voltage txt a5 = Done a6"
         "parse_amperage txt a6 = Done a7" "update_power a7 = Done a8"
         "parse_cycle_count txt a8 = Done a9" "parse_design_capacity txt a9 = Done a10"
         "parse_raw_max_capacity txt a10 = Done a11" "parse_adapter txt a11 = Done a12"
         "update_latency t0 t1 a12 = Done s'"
      unfolding update_primary_Done_iff by blast
    note f = chain_fields [OF ch]
    have "0 < design_capacity a10"
      using p f by simp
    from raw_max_Done [OF ch(11) g c this] show ?thesis
      using f by simp
  qed
  show ?thesis
    using one two three by blast
qed

theorem health_percent_guarded_witness:
  "design_capacity (state_of (update_primary
     ''\"DesignCapacity\" = 0 \"AppleRawMaxCapacity\" = 4500'' (Fin 0) (Fin 0) PowerData_init)) = 0 \<and>
   max_capacity_percent (state_of (update_primary
     ''\"DesignCapacity\" = 0 \"AppleRawMaxCapacity\" = 4500'' (Fin 0) (Fin 0) PowerData_init))
     = PInt 100 \<and>
   health_percent 4500 5000 = Inr (max_capacity_percent (state_of (update_primary
     ''\"DesignCapacity\" = 5000 \"AppleRawMaxCapacity\" = 4500'' (Fin 0) (Fin 0) PowerData_init))) \<and>
   health_percent 4500 5000 = Inr (PFloat (Fin 90))"
proof -
  have z: "design_capacity (state_of (update_primary
      ''\"DesignCapacity\" = 0 \"AppleRawMaxCapacity\" = 4500'' (Fin 0) (Fin 0) PowerData_init)) = 0"
    by (simp add: step_defs match_defs num_defs PowerData_init_def)
  have m: "max_capacity_percent PowerData_init = PInt 100"
    by (simp add: PowerData_init_def)
  obtain s2 where d: "update_primary ''\"DesignCapacity\" = 5000 \"AppleRawMaxCapacity\" = 4500''
      (Fin 0) (Fin 0) PowerData_init = Done s2"
    by (simp add: step_defs match_defs num_defs PowerData_init_def)
  have g: "re_search (match_uint ''\"AppleRawMaxCapacity\"'')
      ''\"DesignCapacity\" = 5000 \"AppleRawMaxCapacity\" = 4500'' = Some ''4500''"
    by (simp add: match_defs)
  have i: "py_int ''4500'' = Inr 4500"
    by (simp add: num_defs is_digit_def)
  have p: "design_capacity (state_of (update_primary
      ''\"DesignCapacity\" = 5000 \"AppleRawMaxCapacity\" = 4500'' (Fin 0) (Fin 0)
      PowerData_init)) = 5000"
    by (simp add: step_defs match_defs num_defs PowerData_init_def)
  have h: "health_percent 4500 5000 = Inr (PFloat (Fin 90))"
    by (simp add: health_percent_def num_defs)
  show ?thesis
    using health_percent_guarded [OF refl, of
        "''\"DesignCapacity\" = 0 \"AppleRawMaxCapacity\" = 4500''" "Fin 0" "Fin 0" PowerData_init]
      health_percent_guarded [OF refl, of
        "''\"DesignCapacity\" = 5000 \"AppleRawMaxCapacity\" = 4500''" "Fin 0" "Fin 0" PowerData_init]
      z m d g i p h
    by simp
qed

section \<open>Running a pass twice\<close>

lemma assign_Done: "assign s rhs upd = Done s' \<longleftrightarrow> (\<exists>v. rhs = Inr v \<and> s' = upd v)"
  by (cases rhs) auto

lemma parse_source_again:
  assumes "parse_source txt a = Done a'"
    and "power_source z = power_source a'" and "charger_connected z = charger_connected a'"
  shows "parse_source txt z = Done z"
  using assms by (auto simp add: parse_source_def)

lemma parse_percent_again:
  assumes "parse_percent txt a = Done a'" and "battery_percent z = battery_percent a'"
  shows "parse_percent txt z = Done z"
  using assms by (auto simp add: parse_percent_def assign_Done split: option.splits)

lemma parse_status_again:
  assumes "parse_status txt a = Done a'" and "charging_status z = charging_status a'"
  shows "parse_status txt z = Done z"
  using assms by (auto simp add: parse_status_def Let_def)

lemma parse_time_again:
  assumes "parse_time txt a = Done a'" and "time_remaining z = time_remaining a'"
  shows "parse_time txt z = Done z"
  using assms by (cases "re_search (match_uint ''\"TimeRemaining\"'') txt") (auto simp add: parse_time_def assign_Done)

lemma parse_temperature_again:
  assumes "parse_temperature txt a = Done a'" and "temperature z = temperature a'"
  shows "parse_temperature txt z = Done z"
  using assms by (cases "re_search (match_uint ''\"Temperature\"'') txt") (auto simp add: parse_temperature_def assign_Done)

lemma parse_voltage_again:
  assumes "parse_voltage txt a = Done a'" and "voltage z = voltage a'"
  shows "parse_voltage txt z = Done z"
  using assms by (cases "re_search (match_uint ''\"Voltage\"'') txt") (auto simp add: parse_voltage_def assign_Done)

lemma parse_amperage_again:
  assumes "parse_amperage txt a = Done a'" and "amperage z = amperage a'"
  shows "parse_amperage txt z = Done z"
  using assms by (cases "search_amperage txt") (auto simp add: parse_amperage_def assign_Done)

lemma parse_cycle_count_again:
  assumes "parse_cycle_count txt a = Done a'" and "cycle_count z = cycle_count a'"
  shows "parse_cycle_count txt z = Done z"
  using assms by (cases "re_search (match_uint ''\"CycleCount\"'') txt") (auto simp add: parse_cycle_count_def assign_Done)

lemma parse_design_capacity_again:
  assumes "parse_design_capacity txt a = Done a'" and "design_capacity z = design_capacity a'"
  shows "parse_design_capacity txt z = Done z"
  using assms by (cases "re_search (match_uint ''\"DesignCapacity\"'') txt") (auto simp add: parse_design_capacity_def assign_Done)

lemma parse_adapter_voltage_again:
  assumes "parse_adapter_voltage ad a = Done a'" and "adapter_voltage z = adapter_voltage a'"
  shows "parse_adapter_voltage ad z = Done z"
  using assms
  by (cases "re_search (match_sub ''AdapterVoltage'') ('' '' @ ad)")
     (auto simp add: parse_adapter_voltage_def assign_Done simp del: re_search.simps)

lemma parse_adapter_current_again:
  assumes "parse_adapter_current ad a = Done a'" and "adapter_current z = adapter_current a'"
  shows "parse_adapter_current ad z = Done z"
  using assms
  by (cases "re_search (match_sub ''Current'') ('' '' @ ad)")
     (auto simp add: parse_adapter_current_def assign_Done simp del: re_search.simps)

lemma parse_adapter_watts_again:
  assumes "parse_adapter_watts ad a = Done a'" and "charger_wattage z = charger_wattage a'"
  shows "parse_adapter_watts ad z = Done z"
  using assms
  by (cases "re_search (match_sub ''Watts'') ('' '' @ ad)")
     (auto simp add: parse_adapter_watts_def assign_Done simp del: re_search.simps)

lemma update_power_again:
  assumes "update_power a = Done a'"
    and "voltage z = voltage a" and "amperage z = amperage a"
    and "power_watts z = power_watts a'"
  shows "update_power z =
           Done (z\<lparr>power_history := deque_append (power_history z) (power_watts z)\<rparr>)"
proof -
  from assms(1) obtain w where w: "power_formula (voltage a) (amperage a) = Inr w"
    and a': "a' = a\<lparr>power_watts := w, power_history := deque_append (power_history a) w\<rparr>"
    unfolding update_power_def assign_Done by blast
  have pw: "power_watts z = w"
    using assms(4) a' by simp
  have "update_power z =
      Done (z\<lparr>power_watts := w, power_history := deque_append (power_history z) w\<rparr>)"
    using w by (simp add: update_power_def assms(2,3))
  also have "z\<lparr>power_watts := w, power_history := deque_append (power_history z) w\<rparr> =
      z\<lparr>power_history := deque_append (power_history z) (power_watts z)\<rparr>"
    unfolding pw [symmetric] by simp
  finally show ?thesis .
qed

lemma parse_raw_max_capacity_again:
  assumes "parse_raw_max_capacity txt a = Done a'"
    and "design_capacity z = design_capacity a"
    and "current_capacity z = current_capacity a'"
    and "max_capacity_percent z = max_capacity_percent a'"
  shows "parse_raw_max_capacity txt z = Done z"
proof (cases "re_search (match_uint ''\"AppleRawMaxCapacity\"'') txt")
  case None
  then show ?thesis
    by (simp add: parse_raw_max_capacity_def)
next
  case (Some g)
  from assms(1) Some obtain v where v: "py_int g = Inr v"
    and rest: "(if design_capacity (a\<lparr>current_capacity := v\<rparr>) > 0
                then assign (a\<lparr>current_capacity := v\<rparr>)
                       (health_percent (current_capacity (a\<lparr>current_capacity := v\<rparr>))
                          (design_capacity (a\<lparr>current_capacity := v\<rparr>)))
                       (\<lambda>p. a\<lparr>current_capacity := v, max_capacity_percent := p\<rparr>)
                else Done (a\<lparr>current_capacity := v\<rparr>)) = Done a'"
    by (cases "py_int g") (simp_all add: parse_raw_max_capacity_def)
  show ?thesis
  proof (cases "0 < design_capacity a")
    case True
    with rest obtain p where p: "health_percent v (design_capacity a) = Inr p"
      and a': "a' = a\<lparr>current_capacity := v, max_capacity_percent := p\<rparr>"
      by (cases "health_percent v (design_capacity a)") simp_all
    have cz: "current_capacity z = v" and mz: "max_capacity_percent z = p"
      using assms(3,4) a' by simp_all
    have e: "z\<lparr>current_capacity := v\<rparr> = z"
      unfolding cz [symmetric] by simp
    have e2: "z\<lparr>max_capacity_percent := p\<rparr> = z"
      unfolding mz [symmetric] by simp
    show ?thesis
      using Some v True p by (simp add: parse_raw_max_capacity_def e e2 cz assms(2))
  next
    case False
    with rest have a': "a' = a\<lparr>current_capacity := v\<rparr>"
      by simp
    have cz: "current_capacity z = v"
      using assms(3) a' by simp
    have e: "z\<lparr>current_capacity := v\<rparr> = z"
      unfolding cz [symmetric] by simp
    show ?thesis
      using Some v False by (simp add: parse_raw_max_capacity_def e assms(2))
  qed
qed

lemma parse_adapter_again:
  assumes "parse_adapter txt a = Done a'"
    and "adapter_voltage z = adapter_voltage a'"
    and "adapter_current z = adapter_current a'"
    and "charger_wattage z = charger_wattage a'"
  shows "parse_adapter txt z = Done z"
proof (cases "re_search match_adapter_details txt")
  case None
  then show ?thesis
    by (simp add: parse_adapter_def)
next
  case (Some ad)
  from assms(1) Some obtain b1 b2 where
    s: "parse_adapter_voltage ad a = Done b1" "parse_adapter_current ad b1 = Done b2"
       "parse_adapter_watts ad b2 = Done a'"
    by (auto simp add: parse_adapter_def and_then_Done_iff)
  have "adapter_voltage b2 = adapter_voltage b1"
    using keeps [OF parse_adapter_current_frame s(2), of F_adapter_voltage]
    by (simp add: same_field_def in_found)
  moreover have "adapter_voltage a' = adapter_voltage b2" "adapter_current a' = adapter_current b2"
    using keeps [OF parse_adapter_watts_frame s(3), of F_adapter_voltage]
      keeps [OF parse_adapter_watts_frame s(3), of F_adapter_current]
    by (simp_all add: same_field_def in_found)
  ultimately have v: "adapter_voltage z = adapter_voltage b1"
    and c: "adapter_current z = adapter_current b2"
    using assms(2,3) by simp_all
  have "parse_adapter_voltage ad z = Done z"
    using s(1) v by (rule parse_adapter_voltage_again)
  moreover have "parse_adapter_current ad z = Done z"
    using s(2) c by (rule parse_adapter_current_again)
  moreover have "parse_adapter_watts ad z = Done z"
    using s(3) assms(4) by (rule parse_adapter_watts_again)
  ultimately show ?thesis
    using Some by (simp add: parse_adapter_def)
qed


lemma second_pass:
  assumes "update_primary txt t0 t1 s = Done s1"
    and "latency_ms t3 t2 = Inr l"
  shows "update_primary txt t2 t3 s1 =
           Done (s1\<lparr>power_history := deque_append (power_history s1) (power_watts s1),
                     poll_latency := l\<rparr>)"
proof -
  from assms(1) obtain a1 a2 a3 a4 a5 a6 a7 a8 a9 a10 a11 a12 where
    c: "parse_source txt s = Done a1" "parse_percent txt a1 = Done a2"
       "parse_status txt a2 = Done a3" "parse_time txt a3 = Done a4"
       "parse_temperature txt a4 = Done a5" "parse_voltage txt a5 = Done a6"
       "parse_amperage txt a6 = Done a7" "update_power a7 = Done a8"
       "parse_cycle_count txt a8 = Done a9" "parse_design_capacity txt a9 = Done a10"
       "parse_raw_max_capacity txt a10 = Done a11" "parse_adapter txt a11 = Done a12"
       "update_latency t0 t1 a12 = Done s1"
    unfolding update_primary_Done_iff by blast
  note f = chain_fields [OF c]
  define z where "z = s1\<lparr>power_history := deque_append (power_history s1) (power_watts s1)\<rparr>"
  have r1: "parse_source txt s1 = Done s1"
    using c(1) f by (intro parse_source_again) simp_all
  have r2: "parse_percent txt s1 = Done s1"
    using c(2) f by (intro parse_percent_again) simp_all
  have r3: "parse_status txt s1 = Done s1"
    using c(3) f by (intro parse_status_again) simp_all
  have r4: "parse_time txt s1 = Done s1"
    using c(4) f by (intro parse_time_again) simp_all
  have r5: "parse_temperature txt s1 = Done s1"
    using c(5) f by (intro parse_temperature_again) simp_all
  have r6: "parse_voltage txt s1 = Done s1"
    using c(6) f by (intro parse_voltage_again) simp_all
  have r7: "parse_amperage txt s1 = Done s1"
    using c(7) f by (intro parse_amperage_again) simp_all
  have r8: "update_power s1 = Done z"
    unfolding z_def using c(8) f by (intro update_power_again) simp_all
  have r9: "parse_cycle_count txt z = Done z"
    using c(9) f by (intro parse_cycle_count_again) (simp_all add: z_def)
  have r10: "parse_design_capacity txt z = Done z"
    using c(10) f by (intro parse_design_capacity_again) (simp_all add: z_def)
  have r11: "parse_raw_max_capacity txt z = Done z"
    using c(11) f by (intro parse_raw_max_capacity_again) (simp_all add: z_def)
  have r12: "parse_adapter txt z = Done z"
    using c(12) f by (intro parse_adapter_again) (simp_all add: z_def)
  have r13: "update_latency t2 t3 z = Done (z\<lparr>poll_latency := l\<rparr>)"
    using assms(2) by (simp add: update_latency_def)
  have "update_primary txt t2 t3 s1 = Done (z\<lparr>poll_latency := l\<rparr>)"
    by (simp only: update_primary_def and_then_simps r1 r2 r3 r4 r5 r6 r7 r8 r9 r10 r11 r12 r13)
  then show ?thesis
    by (simp add: z_def)
qed


text \<open>
  C8, as stated: a second pass on the same text leaves every field of the snapshot as
  the first pass left it. The second pass appends the power draw to the history once
  more: after one pass on a text with voltage 12000 and amperage -500 the power history
  is \<open>[6.0]\<close>, after two passes it is \<open>[6.0, 6.0]\<close>.
\<close>

theorem second_pass_appends_history:
  "power_history (state_of (update_primary ''\"Voltage\" = 12000 \"InstantAmperage\" = -500''
     (Fin 0) (Fin 0) PowerData_init)) = Deque 100 [PFloat (Fin 6)] \<and>
   power_history (state_of (update_primary ''\"Voltage\" = 12000 \"InstantAmperage\" = -500''
     (Fin 0) (Fin 0)
     (state_of (update_primary ''\"Voltage\" = 12000 \"InstantAmperage\" = -500''
        (Fin 0) (Fin 0) PowerData_init)))) = Deque 100 [PFloat (Fin 6), PFloat (Fin 6)]"
proof -
  obtain s1 where d: "update_primary ''\"Voltage\" = 12000 \"InstantAmperage\" = -500''
      (Fin 0) (Fin 0) PowerData_init = Done s1"
    by (simp add: step_defs match_defs num_defs PowerData_init_def)
  have l: "latency_ms (Fin 0) (Fin 0) = Inr (PFloat (Fin 0))"
    by (simp add: latency_ms_def num_defs)
  have "power_history (state_of (update_primary
      ''\"Voltage\" = 12000 \"InstantAmperage\" = -500'' (Fin 0) (Fin 0) PowerData_init))
      = Deque 100 [PFloat (Fin 6)]"
    and "power_watts (state_of (update_primary
      ''\"Voltage\" = 12000 \"InstantAmperage\" = -500'' (Fin 0) (Fin 0) PowerData_init))
      = PFloat (Fin 6)"
    by (simp_all add: step_defs match_defs num_defs PowerData_init_def)
  then have h: "power_history s1 = Deque 100 [PFloat (Fin 6)]"
    and w: "power_watts s1 = PFloat (Fin 6)"
    by (simp_all add: d)
  have a: "deque_append (Deque 100 [PFloat (Fin 6)]) (PFloat (Fin 6)) =
      Deque 100 [PFloat (Fin 6), PFloat (Fin 6)]"
    by (simp add: deque_append_def)
  show ?thesis
    using second_pass [OF d l] by (simp add: d h w a)
qed

text \<open>
  C8, amended: when a pass on a text has completed, a second pass on the same text
  completes too and leaves every field of the snapshot unchanged, except that the power
  draw is appended to the power history once more and the poll latency is set from the
  clock of the second pass.
\<close>

theorem second_pass_same_fields:
  assumes "update_primary txt t0 t1 s = Done s1"
    and "latency_ms t3 t2 = Inr l"
  shows "update_primary txt t2 t3 s1 =
           Done (s1\<lparr>power_history := deque_append (power_history s1) (power_watts s1),
                     poll_latency := l\<rparr>)"
  using assms by (rule second_pass)

theorem second_pass_same_fields_witness:
  "latency_ms (Fin (3 / 2)) (Fin 1) = Inr (PFloat (Fin 500)) \<and>
   update_primary ''\"Voltage\" = 12000 \"InstantAmperage\" = -500'' (Fin 1) (Fin (3 / 2))
     (state_of (update_primary ''\"Voltage\" = 12000 \"InstantAmperage\" = -500''
        (Fin 0) (Fin 0) PowerData_init)) =
   Done ((state_of (update_primary ''\"Voltage\" = 12000 \"InstantAmperage\" = -500''
        (Fin 0) (Fin 0) PowerData_init))
     \<lparr>power_history := Deque 100 [PFloat (Fin 6), PFloat (Fin 6)],
      poll_latency := PFloat (Fin 500)\<rparr>)"
proof -
  obtain s1 where d: "update_primary ''\"Voltage\" = 12000 \"InstantAmperage\" = -500''
      (Fin 0) (Fin 0) PowerData_init = Done s1"
    by (simp add: step_defs match_defs num_defs PowerData_init_def)
  have l: "latency_ms (Fin (3 / 2)) (Fin 1) = Inr (PFloat (Fin 500))"
    by (simp add: latency_ms_def num_defs)
  have h: "power_history (state_of (update_primary
      ''\"Voltage\" = 12000 \"InstantAmperage\" = -500'' (Fin 0) (Fin 0) PowerData_init))
      = Deque 100 [PFloat (Fin 6)]"
    and w: "power_watts (state_of (update_primary
      ''\"Voltage\" = 12000 \"InstantAmperage\" = -500'' (Fin 0) (Fin 0) PowerData_init))
      = PFloat (Fin 6)"
    by (simp_all add: step_defs match_defs num_defs PowerData_init_def)
  have a: "deque_append (Deque 100 [PFloat (Fin 6)]) (PFloat (Fin 6)) =
      Deque 100 [PFloat (Fin 6), PFloat (Fin 6)]"
    by (simp add: deque_append_def)
  have h1: "power_history s1 = Deque 100 [PFloat (Fin 6)]"
    and w1: "power_watts s1 = PFloat (Fin 6)"
    using h w by (simp_all add: d)
  show ?thesis
    using second_pass_same_fields [OF d l] l by (simp add: d h1 w1 a)
qed

end
